theory Spec2Isabelle
  imports Main "HOL-Library.Sublist" "HOL-Library.AList" "HOL-Library.Multiset"
begin

section \<open>JavaScript strings\<close>

text \<open>
  A JavaScript string is a sequence of UTF-16 code units; \<open>length\<close>, \<open>substring\<close>,
  \<open>split\<close>, \<open>trim\<close> and the regular expressions of the sources (none has the \<open>u\<close>
  flag) all work on code units. A code unit is modelled by its number (below \<open>0x10000\<close> in
  JavaScript; nothing below depends on the bound), a string by the list of its code units.
  \<open>str\<close> turns an ASCII literal into such a list.
\<close>

type_synonym jschar = nat
type_synonym jsstring = "jschar list"

definition str :: "string \<Rightarrow> jsstring" where
  "str s = map of_char s"

text \<open>
  The class \<open>\s\<close> and \<open>String.prototype.trim\<close> use the same set: WhiteSpace (TAB, VT,
  FF, SP, NBSP, ZWNBSP and the category Zs) and LineTerminator (LF, CR, LS, PS).
\<close>

definition isWhiteSpace :: "jschar \<Rightarrow> bool" where
  "isWhiteSpace c \<longleftrightarrow>
     c = 0x09 \<or> c = 0x0A \<or> c = 0x0B \<or> c = 0x0C \<or> c = 0x0D \<or> c = 0x20 \<or> c = 0xA0 \<or>
     c = 0x1680 \<or> (0x2000 \<le> c \<and> c \<le> 0x200A) \<or> c = 0x2028 \<or> c = 0x2029 \<or>
     c = 0x202F \<or> c = 0x205F \<or> c = 0x3000 \<or> c = 0xFEFF"

definition trim :: "jsstring \<Rightarrow> jsstring" where
  "trim s = rev (dropWhile isWhiteSpace (rev (dropWhile isWhiteSpace s)))"

text \<open>
  \<open>Canonicalize\<close> of a regular expression with flag \<open>i\<close> and without flag \<open>u\<close>: the
  upper-case mapping, except that a code unit from 128 on is never mapped to one below 128.
  Every pattern character compared through it below is ASCII, and for those the mapping of
  the other code units does not matter: a text code unit \<open>c\<close> matches the ASCII pattern
  character \<open>p\<close> exactly when \<open>c\<close> is \<open>p\<close> in either ASCII case.
\<close>

definition canonicalize :: "jschar \<Rightarrow> jschar" where
  "canonicalize c = (if 0x61 \<le> c \<and> c \<le> 0x7A then c - 0x20 else c)"

text \<open>The class \<open>[A-Z]\<close>, under flag \<open>i\<close> when \<open>ignoreCase\<close> holds.\<close>

definition classAZ :: "bool \<Rightarrow> jschar \<Rightarrow> bool" where
  "classAZ ignoreCase c =
     (let cc = (if ignoreCase then canonicalize c else c) in 0x41 \<le> cc \<and> cc \<le> 0x5A)"

text \<open>\<open>s.includes(pat)\<close>.\<close>

fun includesStr :: "jsstring \<Rightarrow> jsstring \<Rightarrow> bool" where
  "includesStr [] pat = (pat = [])"
| "includesStr (c # cs) pat = (prefix pat (c # cs) \<or> includesStr cs pat)"

text \<open>
  \<open>s.split(sep)\<close> for a string separator: the pieces between the successive occurrences of
  \<open>sep\<close>, found from the left without overlap; an empty separator cuts between all code units.
\<close>

fun splitFrom :: "jsstring \<Rightarrow> jsstring \<Rightarrow> jsstring \<Rightarrow> jsstring list" where
  "splitFrom sep acc [] = [rev acc]"
| "splitFrom sep acc (c # cs) =
     (if sep \<noteq> [] \<and> prefix sep (c # cs)
      then rev acc # splitFrom sep [] (drop (length sep - 1) cs)
      else splitFrom sep (c # acc) cs)"

definition split :: "jsstring \<Rightarrow> jsstring \<Rightarrow> jsstring list" where
  "split s sep = (if sep = [] then map (\<lambda>c. [c]) s else splitFrom sep [] s)"

text \<open>\<open>xs.join(sep)\<close>.\<close>

fun join :: "jsstring list \<Rightarrow> jsstring \<Rightarrow> jsstring" where
  "join [] sep = []"
| "join [x] sep = x"
| "join (x # y # ys) sep = x @ sep @ join (y # ys) sep"

text \<open>The decimal numeral a template literal prints for a non-negative integer.\<close>

function numberToString :: "nat \<Rightarrow> jsstring" where
  "numberToString n =
     (if n < 10 then [0x30 + n] else numberToString (n div 10) @ [0x30 + n mod 10])"
  by pat_completeness auto
termination
  by (relation "measure id") auto

section \<open>The response parser\<close>

text \<open>The fields of a stored document that the analyzer reads.\<close>

record document =
  originalName :: jsstring
  content :: jsstring
  category :: jsstring
  description :: "jsstring option"

record recommendation =
  title :: jsstring
  content :: jsstring
  category :: jsstring
  subcategory :: "jsstring option"
  citation :: jsstring

record AnalysisResult =
  analysis :: jsstring
  insights :: "jsstring list"
  recommendations :: "recommendation list"

subsection \<open>extractSection\<close>

text \<open>
  The source builds the regular expression
  \<^verbatim>\<open>NAME:\s*([\s\S]*?)(?=\n\n[A-Z]+:|$)\<close> with flag \<open>i\<close> and no other flag, and takes
  group 1 of \<open>text.match\<close>, trimmed, or the empty string when there is no match. The
  section name is spliced into the pattern as it is; the three names the source passes
  (\<open>ANALYSIS\<close>, \<open>INSIGHTS\<close>, \<open>RECOMMENDATIONS\<close>) are plain letters, and the model
  reads the name as a literal.

  \<open>headerAhead\<close> is the first alternative of the lookahead at a position: two line feeds,
  one or more characters of the class \<open>[A-Z]\<close>, a colon. The flag \<open>i\<close> of the expression
  applies to the class as it does to the label.
\<close>

definition headerAhead :: "bool \<Rightarrow> jsstring \<Rightarrow> bool" where
  "headerAhead ignoreCase t =
     (case t of
        a # b # rest \<Rightarrow>
          a = 0x0A \<and> b = 0x0A \<and> takeWhile (classAZ ignoreCase) rest \<noteq> [] \<and>
          (case dropWhile (classAZ ignoreCase) rest of [] \<Rightarrow> False | c # _ \<Rightarrow> c = 0x3A)
      | _ \<Rightarrow> False)"

text \<open>
  The lazy group \<open>[\s\S]*?\<close>: the shortest run of code units after which the lookahead
  holds, that is, up to the first position where a header is ahead, or else up to the end
  of the string (\<open>$\<close> without flag \<open>m\<close>).
\<close>

fun lazyBody :: "bool \<Rightarrow> jsstring \<Rightarrow> jsstring" where
  "lazyBody ignoreCase [] = []"
| "lazyBody ignoreCase (c # cs) =
     (if headerAhead ignoreCase (c # cs) then [] else c # lazyBody ignoreCase cs)"

text \<open>The label \<open>NAME:\<close> at the start of \<open>t\<close>, compared through \<open>Canonicalize\<close>.\<close>

definition labelAt :: "jsstring \<Rightarrow> jsstring \<Rightarrow> bool" where
  "labelAt label t \<longleftrightarrow>
     length label \<le> length t \<and>
     map canonicalize (take (length label) t) = map canonicalize label"

text \<open>
  \<open>text.match(regex)\<close>: the leftmost position where the label matches. From there the
  greedy \<open>\s*\<close> takes all the white space that follows, and the lazy group always finds its
  end, so no shorter run of white space is ever tried. The result is group 1.
\<close>

fun matchSection :: "jsstring \<Rightarrow> jsstring \<Rightarrow> jsstring option" where
  "matchSection label [] = None"
| "matchSection label (c # cs) =
     (if labelAt label (c # cs)
      then Some (lazyBody True (dropWhile isWhiteSpace (drop (length label) (c # cs))))
      else matchSection label cs)"

definition extractSection :: "jsstring \<Rightarrow> jsstring \<Rightarrow> jsstring" where
  "extractSection text sectionName =
     (case matchSection (sectionName @ str '':'') text of
        Some group1 \<Rightarrow> trim group1
      | None \<Rightarrow> [])"

subsection \<open>extractInsights\<close>

text \<open>
  The character class of the split pattern, as the source file has it: hyphen, the three
  characters U+00E2, U+20AC, U+00A2, and asterisk.
\<close>

definition isBullet :: "jschar \<Rightarrow> bool" where
  "isBullet c \<longleftrightarrow> c = 0x2D \<or> c = 0xE2 \<or> c = 0x20AC \<or> c = 0xA2 \<or> c = 0x2A"

text \<open>
  \<open>s.split(/[...]\s*/)\<close>: a separator is one character of the class with all the white
  space after it.
\<close>

function splitBullets :: "jsstring \<Rightarrow> jsstring list" where
  "splitBullets s =
     (case dropWhile (\<lambda>c. \<not> isBullet c) s of
        [] \<Rightarrow> [s]
      | b # rest \<Rightarrow>
          takeWhile (\<lambda>c. \<not> isBullet c) s # splitBullets (dropWhile isWhiteSpace rest))"
  by pat_completeness auto
termination
proof (relation "measure length")
  fix s :: jsstring and b rest
  assume d: "dropWhile (\<lambda>c. \<not> isBullet c) s = b # rest"
  have "length (dropWhile isWhiteSpace rest) \<le> length rest"
    by (rule length_dropWhile_le)
  moreover have "length (b # rest) \<le> length s"
    unfolding d [symmetric] by (rule length_dropWhile_le)
  ultimately show "(dropWhile isWhiteSpace rest, s) \<in> measure length"
    by simp
qed simp

definition insightsFallback :: "jsstring list" where
  "insightsFallback =
     [str ''Document successfully processed and indexed'',
      str ''Content is available for search and reference'']"

definition extractInsights :: "jsstring \<Rightarrow> jsstring list" where
  "extractInsights text =
     (let insightsSection = extractSection text (str ''INSIGHTS'') in
      if insightsSection = [] then insightsFallback
      else take 5 (map trim (filter (\<lambda>line. trim line \<noteq> []) (splitBullets insightsSection))))"

subsection \<open>extractRecommendations\<close>

definition hasCategoryMarker :: "jsstring \<Rightarrow> bool" where
  "hasCategoryMarker line \<longleftrightarrow>
     includesStr line (str ''STORMWATER:'') \<or> includesStr line (str ''QSD:'') \<or>
     includesStr line (str ''SWPPP:'') \<or> includesStr line (str ''EROSION:'')"

text \<open>
  \<open>parts[0].replace(/^(STORMWATER|QSD|SWPPP|EROSION):\s*/, '')\<close>: the first alternative
  that the string starts with, its colon and the white space after it are removed.
\<close>

definition stripCategoryPrefix :: "jsstring \<Rightarrow> jsstring" where
  "stripCategoryPrefix s =
     (case find (\<lambda>m. prefix (m @ str '':'') s)
             [str ''STORMWATER'', str ''QSD'', str ''SWPPP'', str ''EROSION''] of
        None \<Rightarrow> s
      | Some m \<Rightarrow> dropWhile isWhiteSpace (drop (length m + 1) s))"

definition subcategoryOf :: "jsstring \<Rightarrow> jsstring" where
  "subcategoryOf line =
     (if includesStr line (str ''QSD:'') then str ''QSD''
      else if includesStr line (str ''SWPPP:'') then str ''SWPPP''
      else if includesStr line (str ''EROSION:'') then str ''Erosion Control''
      else str ''General'')"

text \<open>
  The loop over the lines, with the array \<open>recommendations\<close> that it pushes to as the
  accumulator.
\<close>

fun recommendationLoop ::
  "document \<Rightarrow> jsstring list \<Rightarrow> recommendation list \<Rightarrow> recommendation list" where
  "recommendationLoop doc [] recs = recs"
| "recommendationLoop doc (line # lines) recs =
     recommendationLoop doc lines
       (if hasCategoryMarker line
        then (let parts = split line (str '' - '') in
              if length parts \<ge> 2
              then recs @
                [\<lparr>title = trim (stripCategoryPrefix (hd parts)),
                  content = trim (join (tl parts) (str '' - '')),
                  category = str ''stormwater'',
                  subcategory = Some (subcategoryOf line),
                  citation = originalName doc @ str '', Section '' @
                             numberToString (length recs + 1)\<rparr>]
              else recs)
        else recs)"

definition reviewRequired :: "document \<Rightarrow> recommendation" where
  "reviewRequired doc =
     \<lparr>title = str ''Document Review Required'',
      content = str ''This document has been processed and is available for search. Manual review is recommended to extract specific engineering recommendations.'',
      category = str ''stormwater'',
      subcategory = None,
      citation = originalName doc @ str '', Full Document''\<rparr>"

definition extractRecommendations :: "jsstring \<Rightarrow> document \<Rightarrow> recommendation list" where
  "extractRecommendations text doc =
     (let recommendationsSection = extractSection text (str ''RECOMMENDATIONS'') in
      if recommendationsSection = [] then [reviewRequired doc]
      else take 10
        (recommendationLoop doc
           (filter (\<lambda>line. trim line \<noteq> []) (split recommendationsSection [0x0A])) []))"

subsection \<open>parseAnalysisResponse\<close>

definition analysisFallback :: "document \<Rightarrow> jsstring" where
  "analysisFallback doc =
     str ''Document analysis for '' @ originalName doc @ str '' ('' @ document.category doc @
     str ''). The document contains '' @ numberToString (length (document.content doc)) @
     str '' characters of content related to stormwater management.''"

definition parseAnalysisResponse :: "jsstring \<Rightarrow> document \<Rightarrow> AnalysisResult" where
  "parseAnalysisResponse analysisText doc =
     \<lparr>analysis =
        (let section = extractSection analysisText (str ''ANALYSIS'') in
         if section \<noteq> [] then section else analysisFallback doc),
      insights = extractInsights analysisText,
      recommendations = extractRecommendations analysisText doc\<rparr>"

section \<open>The analyzer\<close>

subsection \<open>buildReferenceContext\<close>

text \<open>\<open>s.substring(0, n)\<close> is \<open>take n s\<close>.\<close>

text \<open>
  \<open>(n / 1024).toFixed(1)\<close> for a string length \<open>n\<close>: the quotient by a power of two is
  exact in a double, and \<open>toFixed(1)\<close> prints the integer \<open>m\<close> nearest to ten times it (the
  larger one at a tie) as \<open>m div 10\<close>, a point and \<open>m mod 10\<close>.
\<close>

definition toFixed1Div1024 :: "nat \<Rightarrow> jsstring" where
  "toFixed1Div1024 n =
     (let m = (10 * n + 512) div 1024
      in numberToString (m div 10) @ str ''.'' @ numberToString (m mod 10))"

text \<open>
  The filter keeps a document when \<open>doc.content && doc.content.length > 50\<close>; the sort
  compares by \<open>b.content.length - a.content.length\<close> and is stable, so documents of equal
  length keep their order.
\<close>

definition referenceDocs :: "document list \<Rightarrow> document list" where
  "referenceDocs allDocuments =
     sort_key (\<lambda>doc. - int (length (document.content doc)))
       (filter (\<lambda>doc. document.content doc \<noteq> [] \<and> length (document.content doc) > 50)
          allDocuments)"

definition referenceEntry :: "document \<Rightarrow> jsstring" where
  \<open>referenceEntry doc =
     (let preview = take 1500 (document.content doc);
          docName = (if originalName doc \<noteq> [] then originalName doc
                     else str ''Untitled Document'')
      in str ''[REFERENCE: "'' @ docName @ str ''"] ('' @ document.category doc @ str '')'' @
         [0x0A] @
         str ''FILE SIZE: '' @ toFixed1Div1024 (length (document.content doc)) @ str ''KB'' @
         [0x0A] @
         str ''CONTENT EXTRACT: '' @ preview @
         (if length (document.content doc) > 1500 then str ''...[FULL DOCUMENT AVAILABLE]''
          else []) @
         [0x0A] @ str ''---'')\<close>

definition bmpImplementationGuide :: jsstring where
  "bmpImplementationGuide = join
     [[],
      [],
      str ''**COMPREHENSIVE BMP IMPLEMENTATION DATABASE:**'',
      [],
      str ''**EROSION CONTROL BMPs:**'',
      [],
      str ''Silt Fence Installation:'',
      str ''- Materials: Geotextile fabric (ASTM D4632, min 200 lb tensile), steel T-posts (6 ft), hardware cloth, zip ties'',
      str ''- Quantities: 1 post per 6-8 feet, fabric height 36 inches'',
      str ''- Installation: Dig 6-inch trench, install posts 3 feet deep, attach fabric with 6 inches above grade'',
      str ''- Cost: $3-5 per linear foot (materials and labor)'',
      [],
      str ''Straw Wattles:'',
      str ''- Materials: Certified weed-free straw, biodegradable netting, wooden stakes (2x2 inches)'',
      str ''- Installation: Create 6-inch deep trench on contour, stake every 4 feet, overlap ends 2 feet'',
      str ''- Maintenance: Replace after 90% breakdown or loss of function'',
      str ''- Cost: $8-12 per linear foot'',
      [],
      str ''Hydroseeding:'',
      str ''- Materials: Seed mix (2-4 lbs/1000 sf), wood fiber mulch (1500-2000 lbs/acre), tackifier'',
      str ''- Application: Mix in hydro-tank, spray evenly, water if no rain within 48 hours'',
      str ''- Timing: Optimal planting seasons (spring/fall), avoid extreme weather'',
      str ''- Cost: $0.15-0.30 per square foot'',
      [],
      str ''**SEDIMENT CONTROL BMPs:**'',
      [],
      str ''Sediment Basin Construction:'',
      str ''- Sizing: 1800 cf per acre of drainage area (minimum 2-year, 24-hour storm)'',
      str ''- Materials: Excavation, outlet structure (riser pipe/orifice), emergency spillway, rip-rap'',
      str ''- Installation: Compact bottom, install outlet, stabilize embankment'',
      str ''- Maintenance: Remove sediment when 50% capacity reached'',
      str ''- Cost: $2-8 per cubic foot'',
      [],
      str ''Check Dam Installation:'',
      str ''- Materials: Rock (6-18 inch diameter), filter fabric, geotextile'',
      str ''- Spacing: 200-300 feet apart in channels, center notch 12 inches deep'',
      str ''- Installation: Excavate foundation, place fabric, install rock with center low'',
      str ''- Cost: $50-200 per check dam'',
      [],
      str ''**INFILTRATION BMPs:**'',
      [],
      str ''Bioretention Cell:'',
      str ''- Sizing: 5-10% of drainage area, minimum 18-inch ponding depth'',
      str ''- Materials: Engineered soil mix (sand/topsoil/compost), plants, underdrain system'',
      str ''- Components: Pretreatment, ponding area, soil media (36-48 inches), underdrain'',
      str ''- Plants: Native species, salt/pollution tolerant, varied root depths'',
      str ''- Cost: $5-15 per square foot'',
      [],
      str ''Rain Garden:'',
      str ''- Sizing: 20-30% of roof drainage area'',
      str ''- Materials: Amended soil (50% sand, 30% topsoil, 20% compost), native plants'',
      str ''- Installation: Excavate 6-18 inches deep, install overflow, plant selection'',
      str ''- Maintenance: Weeding, mulching, plant replacement as needed'',
      str ''- Cost: $3-8 per square foot'',
      [],
      str ''**MATERIAL SPECIFICATIONS:**'',
      str ''- Geotextile: ASTM D4632, minimum 200 lb tensile strength, UV stable'',
      str ''- Aggregate: ASTM C33, clean washed stone, 1.5-2.5 inch diameter for rip-rap'',
      str ''- Steel Posts: Galvanized T-posts, 6-foot length, driven 3 feet minimum'',
      str ''- Seed Mix: Certified, 90% germination, appropriate for local climate'',
      str ''- Filter Fabric: Non-woven, 140 gsm minimum, high flow rate'',
      [],
      str ''**INSTALLATION TIMING:**'',
      str ''- Best: Dry weather periods, avoid frozen ground'',
      str ''- Seeding: Spring (March-May) or Fall (September-November)'',
      str ''- Avoid: During rain events, extreme heat, or winter months'']
     [0x0A]"

definition buildReferenceContext :: "document list \<Rightarrow> jsstring" where
  "buildReferenceContext allDocuments =
     (if referenceDocs allDocuments = []
      then str ''No reference documents available in the library.''
      else join (map referenceEntry (referenceDocs allDocuments)) [0x0A] @
           bmpImplementationGuide)"

subsection \<open>generateFallbackAnalysis\<close>


subsection \<open>analyzeDocument\<close>

text \<open>
  What can be thrown inside \<open>analyzeDocument\<close>: an error of the model API with its HTTP
  status (429 is the rate limit), a failure of the transport, a failure of the storage
  layer, and the \<open>TypeError\<close> of reading \<open>response.content[0].type\<close> in a reply that has no
  content block.
\<close>

datatype error = APIError nat | APIConnectionError | StorageError | TypeError













section \<open>The Python subprocess runner\<close>

text \<open>
  The result of \<open>executePythonScript\<close> has the fields \<open>success\<close>, \<open>output\<close> and \<open>error\<close>;
  \<open>PythonExecutionResult\<close> adds \<open>plots\<close> and \<open>dataAnalysis\<close>. An optional field that is
  \<open>undefined\<close> is \<open>None\<close>.
\<close>

record DataAnalysis =
  summary :: jsstring
  insights :: "jsstring list"
  recommendations :: "jsstring list"

record ScriptResult =
  success :: bool
  "output" :: "jsstring option"
  error :: "jsstring option"

record PythonExecutionResult = ScriptResult +
  plots :: "jsstring list option"
  dataAnalysis :: DataAnalysis

text \<open>
  The promise of \<open>executePythonScript\<close> is resolved by the handler that runs first: the
  \<open>close\<close> handler with the exit code (\<open>null\<close>, here \<open>None\<close>, when a signal ended the
  process) after stdout and stderr were collected, the \<open>error\<close> handler with the message of
  the spawn error, or the 30000 ms timer, which calls \<open>pythonProcess.kill()\<close> first.
\<close>

datatype process_event =
    Close "int option" jsstring jsstring
  | SpawnError jsstring
  | Timeout

text \<open>The second component tells whether \<open>kill()\<close> was called before the promise resolved.\<close>

fun executePythonScript :: "process_event \<Rightarrow> ScriptResult \<times> bool" where
  "executePythonScript (Close code out err) =
     (\<lparr>success = (code = Some 0),
       output = Some (trim out),
       error = (if trim err \<noteq> [] then Some (trim err) else None)\<rparr>, False)"
| "executePythonScript (SpawnError message) =
     (\<lparr>success = False,
       output = None,
       error = Some (str ''Failed to start Python process: '' @ message)\<rparr>, False)"
| "executePythonScript Timeout =
     (\<lparr>success = False,
       output = None,
       error = Some (str ''Python execution timed out after 30 seconds'')\<rparr>, True)"

text \<open>
  What \<open>JSON.parse\<close> makes of the content of the output file: a syntax error, \<open>null\<close>, or
  another value, of which the runner reads the properties \<open>plots\<close> and \<open>analysis\<close>
  (\<open>None\<close> when the property is missing or falsy, as for every value that is not an object).
\<close>

datatype json = JNull | JValue "jsstring list option" "DataAnalysis option"

datatype parse_result = SyntaxError | Parsed json

text \<open>
  The world of one run. The file system is the set of the paths that exist. The session id
  is the fresh \<open>uuidv4()\<close>. \<open>writeThrows\<close> and \<open>readThrows\<close> give the message of the error
  that \<open>writeFileSync\<close> or \<open>readFileSync\<close> throws on a path, if it throws; \<open>unlinkThrows\<close>
  tells whether \<open>unlinkSync\<close> throws. \<open>processFiles\<close> is what the child process has done to
  the file system when the promise resolves, \<open>processEvent\<close> how the promise resolves, and
  \<open>outputParse\<close> what \<open>JSON.parse\<close> makes of the output file when it is read. An error
  of \<open>JSON.stringify(data)\<close> counts as an error of writing the data file. The three paths
  are \<open>path.join\<close> of the temporary directory and a file name made from the session id.

  \<open>pythonProcess.kill()\<close> sends SIGTERM and nothing waits for the process to end: a process
  that outlives the signal runs on while the function reads the output file, cleans up and
  returns. \<open>processFilesLater\<close> is what such a process does to the file system after the
  last \<open>cleanup\<close>. What it does between the resolution of the promise and the cleanup
  comes to the same as doing it before or after: a file written before its unlink is
  removed unread, one written after it stays.
\<close>

record runner_env =
  tempDir :: jsstring
  sessionId :: jsstring
  writeThrows :: "jsstring \<Rightarrow> jsstring option"
  readThrows :: "jsstring \<Rightarrow> jsstring option"
  unlinkThrows :: "jsstring \<Rightarrow> bool"
  processFiles :: "jsstring set \<Rightarrow> jsstring set"
  processFilesLater :: "jsstring set \<Rightarrow> jsstring set"
  processEvent :: process_event
  outputParse :: parse_result

definition scriptPath :: "runner_env \<Rightarrow> jsstring" where
  "scriptPath env = tempDir env @ str ''/script_'' @ sessionId env @ str ''.py''"

definition dataPath :: "runner_env \<Rightarrow> jsstring" where
  "dataPath env = tempDir env @ str ''/data_'' @ sessionId env @ str ''.json''"

definition outputPath :: "runner_env \<Rightarrow> jsstring" where
  "outputPath env = tempDir env @ str ''/output_'' @ sessionId env @ str ''.json''"

definition writeFileSync ::
  "runner_env \<Rightarrow> jsstring \<Rightarrow> jsstring set \<Rightarrow> jsstring + jsstring set" where
  "writeFileSync env path fs =
     (case writeThrows env path of Some message \<Rightarrow> Inl message | None \<Rightarrow> Inr (insert path fs))"

text \<open>
  \<open>cleanup\<close>: each file that exists is unlinked; an error of \<open>unlinkSync\<close> is caught and
  logged, and the file stays.
\<close>

definition cleanup :: "runner_env \<Rightarrow> jsstring list \<Rightarrow> jsstring set \<Rightarrow> jsstring set" where
  "cleanup env files fs =
     fold (\<lambda>file fs. if file \<in> fs \<and> \<not> unlinkThrows env file then fs - {file} else fs) files fs"

text \<open>
  The file system once the process has ended as well: a process that exited, or never
  started, does nothing more; one that was sent the kill may.
\<close>

definition afterReturn :: "runner_env \<Rightarrow> bool \<Rightarrow> jsstring set \<Rightarrow> jsstring set" where
  "afterReturn env killed fs = (if killed then processFilesLater env fs else fs)"

text \<open>The result of the \<open>catch\<close> block of \<open>executeStormwaterAnalysis\<close>.\<close>

definition interpreterError :: "jsstring \<Rightarrow> PythonExecutionResult" where
  "interpreterError message =
     \<lparr>success = False,
      output = None,
      error = Some (str ''Python interpreter error: '' @ message),
      plots = None,
      dataAnalysis =
        \<lparr>summary = str ''Failed to execute Python analysis'',
         insights = [], recommendations = []\<rparr>\<rparr>"

text \<open>The message of the \<open>TypeError\<close> that reading \<open>analysisResults.plots\<close> on \<open>null\<close> throws.\<close>

definition nullPlotsMessage :: jsstring where
  "nullPlotsMessage =
     str ''Cannot read properties of null (reading '' @ [0x27] @ str ''plots'' @ [0x27] @
     str '')''"

text \<open>
  \<open>executeStormwaterAnalysis\<close> on a file system, with the payload \<open>data\<close> (\<open>None\<close> when it
  is missing or falsy): the result, the file system afterwards (once the process has ended
  too), and whether the process was sent the kill. The text of the script it writes does
  not enter the result. The
  \<open>try\<close> block writes the data file and the script, runs the process, reads and parses the
  output file if there is one (a syntax error is caught there and leaves the empty
  object), cleans up, and builds the result; there the read of \<open>plots\<close> throws on \<open>null\<close>.
  Whatever is thrown in the block reaches the \<open>catch\<close> block, which cleans up and returns
  \<open>interpreterError\<close>.
\<close>

definition executeStormwaterAnalysis ::
  "runner_env \<Rightarrow> jsstring \<Rightarrow> jsstring option \<Rightarrow> jsstring set \<Rightarrow>
     PythonExecutionResult \<times> jsstring set \<times> bool" where
  "executeStormwaterAnalysis env code data fs0 =
     (let files = [scriptPath env, dataPath env, outputPath env];
          caught = (\<lambda>message fs killed.
                     (interpreterError message, afterReturn env killed (cleanup env files fs),
                      killed))
      in case (if data \<noteq> None then writeFileSync env (dataPath env) fs0 else Inr fs0) of
           Inl message \<Rightarrow> caught message fs0 False
         | Inr fs1 \<Rightarrow>
        (case writeFileSync env (scriptPath env) fs1 of
           Inl message \<Rightarrow> caught message fs1 False
         | Inr fs2 \<Rightarrow>
        (let (result, killed) = executePythonScript (processEvent env);
             fs3 = processFiles env fs2
         in case (if outputPath env \<in> fs3
                  then (case readThrows env (outputPath env) of
                          Some message \<Rightarrow> Inl message
                        | None \<Rightarrow>
                            Inr (case outputParse env of
                                   SyntaxError \<Rightarrow> JValue None None
                                 | Parsed analysisResults \<Rightarrow> analysisResults))
                  else Inr (JValue None None)) of
              Inl message \<Rightarrow> caught message fs3 killed
            | Inr analysisResults \<Rightarrow>
           (let fs4 = cleanup env files fs3
            in case analysisResults of
                 JNull \<Rightarrow> caught nullPlotsMessage fs4 killed
               | JValue plots' analysis' \<Rightarrow>
                   (\<lparr>success = success result,
                     output = output result,
                     error = error result,
                     plots = Some (case plots' of Some ps \<Rightarrow> ps | None \<Rightarrow> []),
                     dataAnalysis =
                       (case analysis' of
                          Some a \<Rightarrow> a
                        | None \<Rightarrow>
                            \<lparr>summary =
                               (if success result
                                then str ''Python execution completed successfully''
                                else str ''Execution failed''),
                             insights = [], recommendations = []\<rparr>)\<rparr>,
                    afterReturn env killed fs4, killed)))))"

section \<open>The plugin manager\<close>

text \<open>
  The fields and methods of a plugin that registration reads. \<open>memoryUsage\<close> (MB) and
  \<open>cpuUsage\<close> (percent) are the declared constants, natural numbers in every plugin of the
  repository; \<open>reportedMemory\<close> and \<open>reportedCpu\<close> are the \<open>memory\<close> and \<open>cpu\<close> of
  \<open>getResourceUsage()\<close>; \<open>initializeThrows\<close> and \<open>shutdownThrows\<close> tell whether the promise
  of \<open>initialize()\<close> or \<open>shutdown()\<close> is rejected.
\<close>

record AIPlugin =
  id :: jsstring
  memoryUsage :: nat
  cpuUsage :: nat
  isActive :: bool
  reportedMemory :: nat
  reportedCpu :: nat
  initializeThrows :: bool
  shutdownThrows :: bool

text \<open>
  The \<open>Map\<close> of plugins, in insertion order: \<open>set\<close> on a key that is present replaces the
  value where it stands, on a new key it appends.
\<close>

type_synonym plugins = "(jsstring \<times> AIPlugin) list"

definition maxMemoryUsage :: nat where
  "maxMemoryUsage = 4096"

definition maxCpuUsage :: nat where
  "maxCpuUsage = 80"

definition getTotalMemoryUsage :: "plugins \<Rightarrow> nat" where
  "getTotalMemoryUsage ps = foldl (\<lambda>total plugin. total + reportedMemory plugin) 0 (map snd ps)"

definition getTotalCpuUsage :: "plugins \<Rightarrow> nat" where
  "getTotalCpuUsage ps = foldl (\<lambda>total plugin. total + reportedCpu plugin) 0 (map snd ps)"

definition canLoadPlugin :: "plugins \<Rightarrow> AIPlugin \<Rightarrow> bool" where
  "canLoadPlugin ps plugin \<longleftrightarrow>
     getTotalMemoryUsage ps + memoryUsage plugin \<le> maxMemoryUsage \<and>
     getTotalCpuUsage ps + cpuUsage plugin \<le> maxCpuUsage"

text \<open>
  \<open>registerPlugin\<close> and \<open>unregisterPlugin\<close>, each run to its end: the returned flag and the
  map afterwards. The second component of \<open>registerPlugin\<close> tells whether \<open>initialize()\<close>
  was called.
\<close>

definition registerPlugin :: "plugins \<Rightarrow> AIPlugin \<Rightarrow> bool \<times> bool \<times> plugins" where
  "registerPlugin ps plugin =
     (if \<not> canLoadPlugin ps plugin then (False, False, ps)
      else if initializeThrows plugin then (False, True, ps)
      else (True, True, AList.update (id plugin) (plugin\<lparr>isActive := True\<rparr>) ps))"

definition unregisterPlugin :: "plugins \<Rightarrow> jsstring \<Rightarrow> bool \<times> plugins" where
  "unregisterPlugin ps pluginId =
     (case map_of ps pluginId of
        None \<Rightarrow> (False, ps)
      | Some plugin \<Rightarrow>
          if shutdownThrows plugin then (False, ps)
          else (True, AList.delete pluginId ps))"

text \<open>A sequence of calls on the manager, from the empty map of a new manager.\<close>

datatype call = Register AIPlugin | Unregister jsstring

fun runCall :: "plugins \<Rightarrow> call \<Rightarrow> plugins" where
  "runCall ps (Register plugin) = snd (snd (registerPlugin ps plugin))"
| "runCall ps (Unregister pluginId) = snd (unregisterPlugin ps pluginId)"

definition runCalls :: "call list \<Rightarrow> plugins" where
  "runCalls calls = foldl runCall [] calls"

text \<open>The assumption that \<open>getResourceUsage()\<close> reports the declared constants.\<close>

definition reportsDeclared :: "AIPlugin \<Rightarrow> bool" where
  "reportsDeclared plugin \<longleftrightarrow>
     reportedMemory plugin = memoryUsage plugin \<and> reportedCpu plugin = cpuUsage plugin"

fun callReportsDeclared :: "call \<Rightarrow> bool" where
  "callReportsDeclared (Register plugin) = reportsDeclared plugin"
| "callReportsDeclared (Unregister pluginId) = True"

text \<open>
  The invariant of the manager: every registered plugin reports its declared constants, and
  the totals that \<open>canLoadPlugin\<close> reads are within the two caps.
\<close>

definition capsHold :: "plugins \<Rightarrow> bool" where
  "capsHold ps \<longleftrightarrow>
     (\<forall>(k, plugin) \<in> set ps. reportsDeclared plugin) \<and>
     getTotalMemoryUsage ps \<le> maxMemoryUsage \<and> getTotalCpuUsage ps \<le> maxCpuUsage"

section \<open>Notions of the statements\<close>

text \<open>
  The lines of a RECOMMENDATIONS section from which a recommendation is made: those that
  are not blank, contain one of the four category markers, and have the separator.
\<close>

definition recommendationLines :: "jsstring \<Rightarrow> jsstring list" where
  "recommendationLines section =
     filter (\<lambda>line. trim line \<noteq> [] \<and> hasCategoryMarker line \<and>
                    2 \<le> length (split line (str '' - '')))
       (split section [0x0A])"

text \<open>
  The two ASCII bullet markers, hyphen and asterisk. A text is free of bullet characters
  when it contains neither the bullet U+2022 nor one of the three characters U+00E2,
  U+20AC, U+00A2 that stand in its place in the source file.
\<close>

definition isMarker :: "jschar \<Rightarrow> bool" where
  "isMarker c \<longleftrightarrow> c = 0x2D \<or> c = 0x2A"

definition bulletFree :: "jsstring \<Rightarrow> bool" where
  "bulletFree s = list_all (\<lambda>c. c \<noteq> 0x2022 \<and> c \<noteq> 0xE2 \<and> c \<noteq> 0x20AC \<and> c \<noteq> 0xA2) s"

text \<open>
  What it is to split a text at markers: \<open>splitsInto P s pieces\<close> holds when \<open>s\<close> is its
  pieces with a separator between each two, where no piece contains a marker, and a
  separator is one marker followed by all the white space that comes after it.
\<close>

inductive splitsInto :: "(jschar \<Rightarrow> bool) \<Rightarrow> jsstring \<Rightarrow> jsstring list \<Rightarrow> bool" where
  whole: "\<forall>c \<in> set s. \<not> P c \<Longrightarrow> splitsInto P s [s]"
| cut: "\<forall>c \<in> set piece. \<not> P c \<Longrightarrow> P d \<Longrightarrow> \<forall>c \<in> set ws. isWhiteSpace c \<Longrightarrow>
        rest = [] \<or> \<not> isWhiteSpace (hd rest) \<Longrightarrow> splitsInto P rest pieces \<Longrightarrow>
        splitsInto P (piece @ d # ws @ rest) (piece # pieces)"

section \<open>Example inputs\<close>

definition exampleDocument :: document where
  "exampleDocument =
     \<lparr>originalName = str ''a.pdf'', content = str ''hello'', category = str ''stormwater'',
      description = None\<rparr>"

text \<open>A library of two documents, of 50 and of 60 characters.\<close>

definition shortDocument :: document where
  "shortDocument =
     \<lparr>originalName = str ''note.txt'', content = replicate 50 0x78,
      category = str ''stormwater'', description = None\<rparr>"

definition longDocument :: document where
  "longDocument =
     \<lparr>originalName = str ''manual.pdf'', content = replicate 60 0x79,
      category = str ''stormwater'', description = None\<rparr>"


text \<open>
  Four runs in an empty temporary directory: a process that never exits by itself and ends
  at the kill, the same when \<open>unlinkSync\<close> throws on the script file, a process that
  outlives the kill and writes its output file after the cleanup, and a process that writes
  \<open>null\<close> to the output file and exits with code 0.
\<close>

definition timeoutEnv :: runner_env where
  "timeoutEnv =
     \<lparr>tempDir = str ''/app/uploads/python_temp'', sessionId = str ''s1'',
      writeThrows = (\<lambda>path. None), readThrows = (\<lambda>path. None),
      unlinkThrows = (\<lambda>path. False),
      processFiles = (\<lambda>fs. fs), processFilesLater = (\<lambda>fs. fs),
      processEvent = Timeout, outputParse = SyntaxError\<rparr>"

definition stuckScriptEnv :: runner_env where
  "stuckScriptEnv =
     \<lparr>tempDir = str ''/app/uploads/python_temp'', sessionId = str ''s1'',
      writeThrows = (\<lambda>path. None), readThrows = (\<lambda>path. None),
      unlinkThrows = (\<lambda>path. path = str ''/app/uploads/python_temp/script_s1.py''),
      processFiles = (\<lambda>fs. fs), processFilesLater = (\<lambda>fs. fs),
      processEvent = Timeout, outputParse = SyntaxError\<rparr>"

definition survivingEnv :: runner_env where
  "survivingEnv =
     \<lparr>tempDir = str ''/app/uploads/python_temp'', sessionId = str ''s1'',
      writeThrows = (\<lambda>path. None), readThrows = (\<lambda>path. None),
      unlinkThrows = (\<lambda>path. False),
      processFiles = (\<lambda>fs. fs),
      processFilesLater = insert (str ''/app/uploads/python_temp/output_s1.json''),
      processEvent = Timeout, outputParse = SyntaxError\<rparr>"

definition nullOutputEnv :: runner_env where
  "nullOutputEnv =
     \<lparr>tempDir = str ''/app/uploads/python_temp'', sessionId = str ''s1'',
      writeThrows = (\<lambda>path. None), readThrows = (\<lambda>path. None),
      unlinkThrows = (\<lambda>path. False),
      processFiles = insert (str ''/app/uploads/python_temp/output_s1.json''),
      processFilesLater = (\<lambda>fs. fs),
      processEvent = Close (Some 0) (str ''done'') [], outputParse = Parsed JNull\<rparr>"

text \<open>The chat plugin of the repository, and a plugin that nearly fills the memory cap.\<close>

definition chatPlugin :: AIPlugin where
  "chatPlugin =
     \<lparr>id = str ''chat-service'', memoryUsage = 256, cpuUsage = 15, isActive = False,
      reportedMemory = 256, reportedCpu = 15, initializeThrows = False,
      shutdownThrows = False\<rparr>"

definition hugePlugin :: AIPlugin where
  "hugePlugin =
     \<lparr>id = str ''huge'', memoryUsage = 4000, cpuUsage = 10, isActive = False,
      reportedMemory = 4000, reportedCpu = 10, initializeThrows = False,
      shutdownThrows = False\<rparr>"

section \<open>Properties of the response parser\<close>

declare splitBullets.simps [simp del] numberToString.simps [simp del]

lemmas evalString = str_def labelAt_def canonicalize_def headerAhead_def classAZ_def
  isWhiteSpace_def trim_def isBullet_def

lemma trim_trim: "trim (trim s) = trim s"
proof -
  define a where "a = dropWhile isWhiteSpace s"
  define b where "b = dropWhile isWhiteSpace (rev a)"
  have t: "trim s = rev b" by (simp add: trim_def a_def b_def)
  have b_self: "dropWhile isWhiteSpace b = b"
    unfolding b_def by (simp add: dropWhile_idem)
  have "dropWhile isWhiteSpace (rev b) = rev b"
  proof (cases "b = []")
    case True then show ?thesis by simp
  next
    case False
    have a_ne: "a \<noteq> []" using False by (auto simp: b_def)
    have "\<not> isWhiteSpace (hd a)"
      using a_ne unfolding a_def by (rule hd_dropWhile)
    obtain ws where ws: "rev a = ws @ b"
      unfolding b_def by (metis takeWhile_dropWhile_id)
    then have "a = rev b @ rev ws" by (metis rev_append rev_rev_ident)
    then have "hd (rev b) = hd a" using False by simp
    then show ?thesis using \<open>\<not> isWhiteSpace (hd a)\<close> False
      by (simp add: dropWhile_eq_self_iff)
  qed
  then have "trim (rev b) = rev b" by (simp add: trim_def b_self)
  then show ?thesis unfolding t .
qed

text \<open>
  Claim C3. For every reply text and source document, the result of the parser has at most
  5 insights and at most 10 recommendations.
\<close>

theorem parseAnalysisResponse_bounded:
  "length (AnalysisResult.insights (parseAnalysisResponse analysisText doc)) \<le> 5 \<and>
   length (AnalysisResult.recommendations (parseAnalysisResponse analysisText doc)) \<le> 10"
  by (simp add: parseAnalysisResponse_def extractInsights_def extractRecommendations_def
      insightsFallback_def Let_def)

text \<open>
  The loop appends, for each line that has a marker and a separator, the recommendation
  made from that line, numbered by its position in the array.
\<close>

lemma recommendationLoop_closed:
  "recommendationLoop doc lines recs =
     recs @
     map (\<lambda>(n, line).
            \<lparr>title = trim (stripCategoryPrefix (hd (split line (str '' - '')))),
              content = trim (join (tl (split line (str '' - ''))) (str '' - '')),
              category = str ''stormwater'',
              subcategory = Some (subcategoryOf line),
              citation = originalName doc @ str '', Section '' @ numberToString (n + 1)\<rparr>)
       (enumerate (length recs)
          (filter (\<lambda>line. hasCategoryMarker line \<and> 2 \<le> length (split line (str '' - '')))
             lines))"
proof (induction lines arbitrary: recs)
  case Nil
  show ?case by simp
next
  case (Cons line lines)
  show ?case
  proof (cases "hasCategoryMarker line \<and> 2 \<le> length (split line (str '' - ''))")
    case True
    then show ?thesis by (simp add: Cons.IH Let_def)
  next
    case False
    then show ?thesis by (auto simp: Cons.IH Let_def)
  qed
qed

text \<open>
  Claim C8. When the RECOMMENDATIONS section is not empty, the recommendations are made
  from its lines that have a category marker and a separator, in their order, at most
  the first 10 of them; the recommendation at position \<open>i\<close> (from 0) takes its title,
  content and subcategory from the \<open>i\<close>-th such line and carries the citation made of the
  document's original name, the text \<open>, Section\<close> and the number \<open>i + 1\<close>: a running
  counter of the recommendations extracted so far.
\<close>

theorem extractRecommendations_citation:
  assumes "extractSection text (str ''RECOMMENDATIONS'') \<noteq> []"
  shows "length (extractRecommendations text doc) =
           min (length (recommendationLines (extractSection text (str ''RECOMMENDATIONS'')))) 10 \<and>
         (\<forall>i < length (extractRecommendations text doc).
            extractRecommendations text doc ! i =
              \<lparr>title = trim (stripCategoryPrefix (hd (split
                   (recommendationLines (extractSection text (str ''RECOMMENDATIONS'')) ! i)
                   (str '' - '')))),
                content = trim (join (tl (split
                   (recommendationLines (extractSection text (str ''RECOMMENDATIONS'')) ! i)
                   (str '' - ''))) (str '' - '')),
                category = str ''stormwater'',
                subcategory = Some (subcategoryOf
                   (recommendationLines (extractSection text (str ''RECOMMENDATIONS'')) ! i)),
                citation = originalName doc @ str '', Section '' @ numberToString (i + 1)\<rparr>)"
proof -
  let ?sec = "extractSection text (str ''RECOMMENDATIONS'')"
  let ?marked = "recommendationLines ?sec"
  let ?make = "\<lambda>(n, line).
            \<lparr>title = trim (stripCategoryPrefix (hd (split line (str '' - '')))),
              content = trim (join (tl (split line (str '' - ''))) (str '' - '')),
              category = str ''stormwater'',
              subcategory = Some (subcategoryOf line),
              citation = originalName doc @ str '', Section '' @ numberToString (n + 1)\<rparr>"
  have m: "filter (\<lambda>line. hasCategoryMarker line \<and> 2 \<le> length (split line (str '' - '')))
             (filter (\<lambda>line. trim line \<noteq> []) (split ?sec [0x0A])) = ?marked"
    by (simp add: recommendationLines_def conj_ac)
  have e: "extractRecommendations text doc = take 10 (map ?make (enumerate 0 ?marked))"
    using assms
      recommendationLoop_closed
        [of doc "filter (\<lambda>line. trim line \<noteq> []) (split ?sec [0x0A])" "[]"]
    unfolding m by (simp add: extractRecommendations_def Let_def)
  have l: "length (extractRecommendations text doc) = min (length ?marked) 10"
    unfolding e by simp
  have n: "extractRecommendations text doc ! i = ?make (i, ?marked ! i)"
    if "i < length (extractRecommendations text doc)" for i
  proof -
    from that have i: "i < length ?marked" "i < 10" unfolding l by simp_all
    then have "take 10 (map ?make (enumerate 0 ?marked)) ! i = ?make (enumerate 0 ?marked ! i)"
      by simp
    also have "enumerate 0 ?marked ! i = (i, ?marked ! i)"
      using i(1) by (simp add: nth_enumerate_eq)
    finally show ?thesis unfolding e .
  qed
  show ?thesis
  proof (intro conjI allI impI)
    show "length (extractRecommendations text doc) = min (length ?marked) 10" by (rule l)
  next
    fix i
    assume "i < length (extractRecommendations text doc)"
    from n [OF this] show "extractRecommendations text doc ! i =
              \<lparr>title = trim (stripCategoryPrefix (hd (split (?marked ! i) (str '' - '')))),
                content = trim (join (tl (split (?marked ! i) (str '' - ''))) (str '' - '')),
                category = str ''stormwater'',
                subcategory = Some (subcategoryOf (?marked ! i)),
                citation = originalName doc @ str '', Section '' @ numberToString (i + 1)\<rparr>"
      by simp
  qed
qed

text \<open>
  A reply with three recommendation lines and a line without marker between them: the
  citations count 1, 2, 3.
\<close>

lemma three_lines_section:
  "extractSection
     (str ''RECOMMENDATIONS:\<newline>STORMWATER: Add silt fence - Install per spec X\<newline>Inspect after rain\<newline>QSD: Inspect weekly - Log results - keep records\<newline>EROSION: Seed slopes - Use native mix'')
     (str ''RECOMMENDATIONS'') =
   str ''STORMWATER: Add silt fence - Install per spec X\<newline>Inspect after rain\<newline>QSD: Inspect weekly - Log results - keep records\<newline>EROSION: Seed slopes - Use native mix''"
  by (simp add: extractSection_def evalString)

lemma three_lines_split:
  "split (str ''STORMWATER: Add silt fence - Install per spec X\<newline>Inspect after rain\<newline>QSD: Inspect weekly - Log results - keep records\<newline>EROSION: Seed slopes - Use native mix'') [0x0A] =
   [str ''STORMWATER: Add silt fence - Install per spec X'', str ''Inspect after rain'',
    str ''QSD: Inspect weekly - Log results - keep records'',
    str ''EROSION: Seed slopes - Use native mix'']"
  by (simp add: split_def str_def)

lemma line_facts:
  "split (str ''STORMWATER: Add silt fence - Install per spec X'') (str '' - '') =
     [str ''STORMWATER: Add silt fence'', str ''Install per spec X'']"
  "split (str ''QSD: Inspect weekly - Log results - keep records'') (str '' - '') =
     [str ''QSD: Inspect weekly'', str ''Log results'', str ''keep records'']"
  "split (str ''EROSION: Seed slopes - Use native mix'') (str '' - '') =
     [str ''EROSION: Seed slopes'', str ''Use native mix'']"
  "hasCategoryMarker (str ''STORMWATER: Add silt fence - Install per spec X'')"
  "\<not> hasCategoryMarker (str ''Inspect after rain'')"
  "hasCategoryMarker (str ''QSD: Inspect weekly - Log results - keep records'')"
  "hasCategoryMarker (str ''EROSION: Seed slopes - Use native mix'')"
  "trim (str ''STORMWATER: Add silt fence - Install per spec X'') \<noteq> []"
  "trim (str ''QSD: Inspect weekly - Log results - keep records'') \<noteq> []"
  "trim (str ''EROSION: Seed slopes - Use native mix'') \<noteq> []"
  by (simp_all add: split_def hasCategoryMarker_def str_def trim_def isWhiteSpace_def)

lemma three_lines_marked:
  "recommendationLines (str ''STORMWATER: Add silt fence - Install per spec X\<newline>Inspect after rain\<newline>QSD: Inspect weekly - Log results - keep records\<newline>EROSION: Seed slopes - Use native mix'') =
   [str ''STORMWATER: Add silt fence - Install per spec X'',
    str ''QSD: Inspect weekly - Log results - keep records'',
    str ''EROSION: Seed slopes - Use native mix'']"
  unfolding recommendationLines_def three_lines_split by (simp add: line_facts)

lemma three_lines_fields:
  "trim (stripCategoryPrefix (hd (split (str ''STORMWATER: Add silt fence - Install per spec X'') (str '' - '')))) = str ''Add silt fence''"
  "trim (join (tl (split (str ''STORMWATER: Add silt fence - Install per spec X'') (str '' - ''))) (str '' - '')) = str ''Install per spec X''"
  "subcategoryOf (str ''STORMWATER: Add silt fence - Install per spec X'') = str ''General''"
  "trim (stripCategoryPrefix (hd (split (str ''QSD: Inspect weekly - Log results - keep records'') (str '' - '')))) = str ''Inspect weekly''"
  "trim (join (tl (split (str ''QSD: Inspect weekly - Log results - keep records'') (str '' - ''))) (str '' - '')) = str ''Log results - keep records''"
  "subcategoryOf (str ''QSD: Inspect weekly - Log results - keep records'') = str ''QSD''"
  "trim (stripCategoryPrefix (hd (split (str ''EROSION: Seed slopes - Use native mix'') (str '' - '')))) = str ''Seed slopes''"
  "trim (join (tl (split (str ''EROSION: Seed slopes - Use native mix'') (str '' - ''))) (str '' - '')) = str ''Use native mix''"
  "subcategoryOf (str ''EROSION: Seed slopes - Use native mix'') = str ''Erosion Control''"
  by (simp_all add: split_def stripCategoryPrefix_def subcategoryOf_def str_def trim_def
      isWhiteSpace_def)

lemma example_citations:
  "originalName exampleDocument @ str '', Section '' @ numberToString 1 =
     str ''a.pdf, Section 1''"
  "originalName exampleDocument @ str '', Section '' @ numberToString 2 =
     str ''a.pdf, Section 2''"
  "originalName exampleDocument @ str '', Section '' @ numberToString 3 =
     str ''a.pdf, Section 3''"
  by (simp_all add: exampleDocument_def str_def numberToString.simps)

lemmas example_citations_Suc =
  example_citations [unfolded One_nat_def numeral_2_eq_2 numeral_3_eq_3]

theorem extractRecommendations_citation_witness:
  "extractSection
     (str ''RECOMMENDATIONS:\<newline>STORMWATER: Add silt fence - Install per spec X\<newline>Inspect after rain\<newline>QSD: Inspect weekly - Log results - keep records\<newline>EROSION: Seed slopes - Use native mix'')
     (str ''RECOMMENDATIONS'') \<noteq> [] \<and>
   length (extractRecommendations
     (str ''RECOMMENDATIONS:\<newline>STORMWATER: Add silt fence - Install per spec X\<newline>Inspect after rain\<newline>QSD: Inspect weekly - Log results - keep records\<newline>EROSION: Seed slopes - Use native mix'')
     exampleDocument) = 3 \<and>
   extractRecommendations
     (str ''RECOMMENDATIONS:\<newline>STORMWATER: Add silt fence - Install per spec X\<newline>Inspect after rain\<newline>QSD: Inspect weekly - Log results - keep records\<newline>EROSION: Seed slopes - Use native mix'')
     exampleDocument ! 0 =
     \<lparr>title = str ''Add silt fence'', content = str ''Install per spec X'',
      category = str ''stormwater'', subcategory = Some (str ''General''),
      citation = str ''a.pdf, Section 1''\<rparr> \<and>
   extractRecommendations
     (str ''RECOMMENDATIONS:\<newline>STORMWATER: Add silt fence - Install per spec X\<newline>Inspect after rain\<newline>QSD: Inspect weekly - Log results - keep records\<newline>EROSION: Seed slopes - Use native mix'')
     exampleDocument ! 1 =
     \<lparr>title = str ''Inspect weekly'', content = str ''Log results - keep records'',
      category = str ''stormwater'', subcategory = Some (str ''QSD''),
      citation = str ''a.pdf, Section 2''\<rparr> \<and>
   extractRecommendations
     (str ''RECOMMENDATIONS:\<newline>STORMWATER: Add silt fence - Install per spec X\<newline>Inspect after rain\<newline>QSD: Inspect weekly - Log results - keep records\<newline>EROSION: Seed slopes - Use native mix'')
     exampleDocument ! 2 =
     \<lparr>title = str ''Seed slopes'', content = str ''Use native mix'',
      category = str ''stormwater'', subcategory = Some (str ''Erosion Control''),
      citation = str ''a.pdf, Section 3''\<rparr>"
proof -
  let ?t = "str ''RECOMMENDATIONS:\<newline>STORMWATER: Add silt fence - Install per spec X\<newline>Inspect after rain\<newline>QSD: Inspect weekly - Log results - keep records\<newline>EROSION: Seed slopes - Use native mix''"
  have h: "extractSection ?t (str ''RECOMMENDATIONS'') \<noteq> []"
    unfolding three_lines_section by (simp add: str_def)
  note t = extractRecommendations_citation [OF h, of exampleDocument, unfolded three_lines_section three_lines_marked]
  from t have l: "length (extractRecommendations ?t exampleDocument) = 3" by simp
  note each = t [THEN conjunct2, rule_format, unfolded l]
  have r0: "extractRecommendations ?t exampleDocument ! 0 =
     \<lparr>title = str ''Add silt fence'', content = str ''Install per spec X'',
      category = str ''stormwater'', subcategory = Some (str ''General''),
      citation = str ''a.pdf, Section 1''\<rparr>"
    using each [of 0] by (simp add: three_lines_fields example_citations example_citations_Suc)
  have r1: "extractRecommendations ?t exampleDocument ! 1 =
     \<lparr>title = str ''Inspect weekly'', content = str ''Log results - keep records'',
      category = str ''stormwater'', subcategory = Some (str ''QSD''),
      citation = str ''a.pdf, Section 2''\<rparr>"
    using each [of 1] by (simp add: three_lines_fields example_citations example_citations_Suc)
  have r2: "extractRecommendations ?t exampleDocument ! 2 =
     \<lparr>title = str ''Seed slopes'', content = str ''Use native mix'',
      category = str ''stormwater'', subcategory = Some (str ''Erosion Control''),
      citation = str ''a.pdf, Section 3''\<rparr>"
    using each [of 2] by (simp add: three_lines_fields example_citations example_citations_Suc)
  from h l r0 r1 r2 show ?thesis by (intro conjI)
qed







text \<open>Facts about the three parts of the match for claim C4.\<close>

lemma classAZ_ignoreCase:
  "classAZ True c \<longleftrightarrow> (0x41 \<le> c \<and> c \<le> 0x5A) \<or> (0x61 \<le> c \<and> c \<le> 0x7A)"
  by (auto simp: classAZ_def canonicalize_def Let_def)

lemma colon_not_classAZ: "\<not> classAZ ignoreCase 0x3A"
  by (simp add: classAZ_def canonicalize_def Let_def)

lemma headerAhead_iff:
  "headerAhead ignoreCase t \<longleftrightarrow>
     (\<exists>word rest. t = 0x0A # 0x0A # word @ 0x3A # rest \<and> word \<noteq> [] \<and>
        (\<forall>c \<in> set word. classAZ ignoreCase c))"
proof
  assume h: "headerAhead ignoreCase t"
  then obtain r where t: "t = 0x0A # 0x0A # r"
    and w: "takeWhile (classAZ ignoreCase) r \<noteq> []"
    and d: "case dropWhile (classAZ ignoreCase) r of [] \<Rightarrow> False | c # _ \<Rightarrow> c = 0x3A"
    by (auto simp: headerAhead_def split: list.splits)
  from d obtain rest where d': "dropWhile (classAZ ignoreCase) r = 0x3A # rest"
    by (auto split: list.splits)
  have "r = takeWhile (classAZ ignoreCase) r @ 0x3A # rest"
    using takeWhile_dropWhile_id [of "classAZ ignoreCase" r] unfolding d' by simp
  with t w show "\<exists>word rest. t = 0x0A # 0x0A # word @ 0x3A # rest \<and> word \<noteq> [] \<and>
        (\<forall>c \<in> set word. classAZ ignoreCase c)"
    by (metis set_takeWhileD)
next
  assume "\<exists>word rest. t = 0x0A # 0x0A # word @ 0x3A # rest \<and> word \<noteq> [] \<and>
        (\<forall>c \<in> set word. classAZ ignoreCase c)"
  then obtain word rest where t: "t = 0x0A # 0x0A # word @ 0x3A # rest" and w: "word \<noteq> []"
    and a: "\<forall>c \<in> set word. classAZ ignoreCase c"
    by blast
  have tw: "takeWhile (classAZ ignoreCase) (word @ 0x3A # rest) = word"
    using a by (simp add: takeWhile_append2 colon_not_classAZ)
  have dw: "dropWhile (classAZ ignoreCase) (word @ 0x3A # rest) = 0x3A # rest"
    using a by (simp add: dropWhile_append2 colon_not_classAZ)
  show "headerAhead ignoreCase t"
    unfolding t headerAhead_def using w by (simp add: tw dw)
qed

lemma lazyBody_decomposition:
  "\<exists>after. t = lazyBody ignoreCase t @ after \<and> (after = [] \<or> headerAhead ignoreCase after) \<and>
     (\<forall>k < length (lazyBody ignoreCase t). \<not> headerAhead ignoreCase (drop k t))"
proof (induction t)
  case Nil
  show ?case by simp
next
  case (Cons c cs)
  show ?case
  proof (cases "headerAhead ignoreCase (c # cs)")
    case True
    then show ?thesis by simp
  next
    case False
    from Cons.IH obtain after where cs: "cs = lazyBody ignoreCase cs @ after"
      and e: "after = [] \<or> headerAhead ignoreCase after"
      and n: "\<forall>k < length (lazyBody ignoreCase cs). \<not> headerAhead ignoreCase (drop k cs)"
      by blast
    have "\<forall>k < length (lazyBody ignoreCase (c # cs)). \<not> headerAhead ignoreCase (drop k (c # cs))"
    proof (intro allI impI)
      fix k
      assume "k < length (lazyBody ignoreCase (c # cs))"
      then show "\<not> headerAhead ignoreCase (drop k (c # cs))"
        using False n by (cases k) simp_all
    qed
    moreover have "c # cs = lazyBody ignoreCase (c # cs) @ after"
      using False cs by simp
    ultimately show ?thesis using e by blast
  qed
qed

lemma matchSection_Some:
  "matchSection label t = Some body \<Longrightarrow>
   \<exists>before rest. t = before @ rest \<and> labelAt label rest \<and>
     (\<forall>k < length before. \<not> labelAt label (drop k t)) \<and>
     body = lazyBody True (dropWhile isWhiteSpace (drop (length label) rest))"
proof (induction t)
  case Nil
  then show ?case by simp
next
  case (Cons c cs)
  show ?case
  proof (cases "labelAt label (c # cs)")
    case True
    with Cons.prems have "body = lazyBody True (dropWhile isWhiteSpace (drop (length label) (c # cs)))"
      by simp
    with True show ?thesis by (intro exI [of _ "[]"] exI [of _ "c # cs"]) simp
  next
    case False
    with Cons.prems have "matchSection label cs = Some body" by simp
    from Cons.IH [OF this] obtain before rest where cs: "cs = before @ rest"
      and l: "labelAt label rest"
      and n: "\<forall>k < length before. \<not> labelAt label (drop k cs)"
      and b: "body = lazyBody True (dropWhile isWhiteSpace (drop (length label) rest))"
      by blast
    have "\<forall>k < length (c # before). \<not> labelAt label (drop k (c # cs))"
    proof (intro allI impI)
      fix k
      assume "k < length (c # before)"
      then show "\<not> labelAt label (drop k (c # cs))"
        using False n by (cases k) simp_all
    qed
    with cs l b show ?thesis by (intro exI [of _ "c # before"] exI [of _ rest]) simp
  qed
qed

lemma matchSection_None:
  "matchSection label t = None \<longleftrightarrow> (\<forall>k < length t. \<not> labelAt label (drop k t))"
proof (induction t)
  case Nil
  show ?case by simp
next
  case (Cons c cs)
  show ?case
  proof (cases "labelAt label (c # cs)")
    case True
    then show ?thesis by auto
  next
    case False
    have "(\<forall>k < length (c # cs). \<not> labelAt label (drop k (c # cs))) \<longleftrightarrow>
          (\<forall>k < length cs. \<not> labelAt label (drop k cs))"
    proof
      assume a: "\<forall>k < length (c # cs). \<not> labelAt label (drop k (c # cs))"
      show "\<forall>k < length cs. \<not> labelAt label (drop k cs)"
      proof (intro allI impI)
        fix k assume "k < length cs"
        then show "\<not> labelAt label (drop k cs)" using a [rule_format, of "Suc k"] by simp
      qed
    next
      assume a: "\<forall>k < length cs. \<not> labelAt label (drop k cs)"
      show "\<forall>k < length (c # cs). \<not> labelAt label (drop k (c # cs))"
      proof (intro allI impI)
        fix k assume "k < length (c # cs)"
        then show "\<not> labelAt label (drop k (c # cs))" using a False by (cases k) simp_all
      qed
    qed
    with False Cons.IH show ?thesis by simp
  qed
qed

text \<open>
  Claim C4, amended. A header ahead is a blank line (two line feeds) followed by one or
  more ASCII letters of either case and a colon. \<open>extractSection\<close> returns the empty
  string when the label, compared without regard to ASCII case, occurs nowhere in the
  text. Otherwise it takes the leftmost occurrence of the label, skips all the white space
  after it, and takes as body the text from there up to the first position where a header
  is ahead, or up to the end of the text when there is none; it returns the body trimmed.
\<close>

theorem extractSection_characterisation:
  "(\<forall>t. headerAhead True t \<longleftrightarrow>
      (\<exists>word rest. t = 0x0A # 0x0A # word @ 0x3A # rest \<and> word \<noteq> [] \<and>
         (\<forall>c \<in> set word. (0x41 \<le> c \<and> c \<le> 0x5A) \<or> (0x61 \<le> c \<and> c \<le> 0x7A)))) \<and>
   (matchSection (sectionName @ str '':'') text = None \<longleftrightarrow>
      (\<forall>k < length text. \<not> labelAt (sectionName @ str '':'') (drop k text))) \<and>
   (matchSection (sectionName @ str '':'') text = None \<longrightarrow> extractSection text sectionName = []) \<and>
   (\<forall>body. matchSection (sectionName @ str '':'') text = Some body \<longrightarrow>
      extractSection text sectionName = trim body \<and>
      (\<exists>before label spaces after.
         text = before @ label @ spaces @ body @ after \<and>
         length label = length sectionName + 1 \<and>
         map canonicalize label = map canonicalize (sectionName @ str '':'') \<and>
         (\<forall>k < length before. \<not> labelAt (sectionName @ str '':'') (drop k text)) \<and>
         (\<forall>c \<in> set spaces. isWhiteSpace c) \<and>
         (body @ after = [] \<or> \<not> isWhiteSpace (hd (body @ after))) \<and>
         (after = [] \<or> headerAhead True after) \<and>
         (\<forall>k < length body. \<not> headerAhead True (drop k (body @ after)))))"
proof -
  let ?label = "sectionName @ str '':''"
  have h: "\<forall>t. headerAhead True t \<longleftrightarrow>
      (\<exists>word rest. t = 0x0A # 0x0A # word @ 0x3A # rest \<and> word \<noteq> [] \<and>
         (\<forall>c \<in> set word. (0x41 \<le> c \<and> c \<le> 0x5A) \<or> (0x61 \<le> c \<and> c \<le> 0x7A)))"
    unfolding headerAhead_iff [of True] classAZ_ignoreCase by blast
  have n: "matchSection ?label text = None \<longleftrightarrow>
      (\<forall>k < length text. \<not> labelAt ?label (drop k text))"
    by (rule matchSection_None)
  have e: "matchSection ?label text = None \<longrightarrow> extractSection text sectionName = []"
    by (simp add: extractSection_def)
  have s: "extractSection text sectionName = trim body \<and>
      (\<exists>before label spaces after.
         text = before @ label @ spaces @ body @ after \<and>
         length label = length sectionName + 1 \<and>
         map canonicalize label = map canonicalize ?label \<and>
         (\<forall>k < length before. \<not> labelAt ?label (drop k text)) \<and>
         (\<forall>c \<in> set spaces. isWhiteSpace c) \<and>
         (body @ after = [] \<or> \<not> isWhiteSpace (hd (body @ after))) \<and>
         (after = [] \<or> headerAhead True after) \<and>
         (\<forall>k < length body. \<not> headerAhead True (drop k (body @ after))))"
    if m: "matchSection ?label text = Some body" for body
  proof -
    from matchSection_Some [OF m] obtain before rest where tx: "text = before @ rest"
      and l: "labelAt ?label rest"
      and left: "\<forall>k < length before. \<not> labelAt ?label (drop k text)"
      and b: "body = lazyBody True (dropWhile isWhiteSpace (drop (length ?label) rest))"
      by blast
    define label where "label = take (length ?label) rest"
    define tail where "tail = drop (length ?label) rest"
    define spaces where "spaces = takeWhile isWhiteSpace tail"
    define start where "start = dropWhile isWhiteSpace tail"
    have rest: "rest = label @ spaces @ start"
      by (simp add: label_def tail_def spaces_def start_def)
    have ll: "length label = length sectionName + 1"
      using l by (simp add: label_def labelAt_def str_def)
    have lc: "map canonicalize label = map canonicalize ?label"
      using l by (simp add: label_def labelAt_def)
    have sp: "\<forall>c \<in> set spaces. isWhiteSpace c"
      by (auto simp: spaces_def dest: set_takeWhileD)
    have st: "start = [] \<or> \<not> isWhiteSpace (hd start)"
      unfolding start_def using hd_dropWhile [of isWhiteSpace tail] by blast
    from lazyBody_decomposition [of start True] obtain after
      where d: "start = lazyBody True start @ after"
        and a: "after = [] \<or> headerAhead True after"
        and nh: "\<forall>k < length (lazyBody True start). \<not> headerAhead True (drop k start)"
      by blast
    have body: "body = lazyBody True start" by (simp add: b start_def tail_def)
    note d' = d [folded body]
    note nh' = nh [folded body]
    have f1: "text = before @ label @ spaces @ body @ after"
      unfolding tx rest d' [symmetric] ..
    have f2: "\<forall>k < length body. \<not> headerAhead True (drop k (body @ after))"
      unfolding d' [symmetric] by (rule nh')
    have f3: "body @ after = [] \<or> \<not> isWhiteSpace (hd (body @ after))"
      unfolding d' [symmetric] by (rule st)
    have f4: "extractSection text sectionName = trim body"
      using m by (simp add: extractSection_def)
    from f4 f1 ll lc left sp f3 a f2 show ?thesis
      by (intro conjI exI [of _ before] exI [of _ label] exI [of _ spaces] exI [of _ after])
  qed
  then have s': "\<forall>body. matchSection ?label text = Some body \<longrightarrow>
      extractSection text sectionName = trim body \<and>
      (\<exists>before label spaces after.
         text = before @ label @ spaces @ body @ after \<and>
         length label = length sectionName + 1 \<and>
         map canonicalize label = map canonicalize ?label \<and>
         (\<forall>k < length before. \<not> labelAt ?label (drop k text)) \<and>
         (\<forall>c \<in> set spaces. isWhiteSpace c) \<and>
         (body @ after = [] \<or> \<not> isWhiteSpace (hd (body @ after))) \<and>
         (after = [] \<or> headerAhead True after) \<and>
         (\<forall>k < length body. \<not> headerAhead True (drop k (body @ after))))"
    by (intro allI impI)
  from h n e s' show ?thesis by (intro conjI)
qed

lemma note_match:
  "matchSection (str ''ANALYSIS'' @ str '':'') (str ''ANALYSIS: first\<newline>\<newline>note: second'') =
     Some (str ''first'')"
  by (simp add: evalString)

theorem extractSection_characterisation_witness:
  "matchSection (str ''ANALYSIS'' @ str '':'') (str ''ANALYSIS: first\<newline>\<newline>note: second'') =
     Some (str ''first'') \<and>
   extractSection (str ''ANALYSIS: first\<newline>\<newline>note: second'') (str ''ANALYSIS'') = trim (str ''first'') \<and>
   headerAhead True (str ''\<newline>\<newline>note: second'') \<and>
   matchSection (str ''ANALYSIS'' @ str '':'') (str ''just some text'') = None \<and>
   extractSection (str ''just some text'') (str ''ANALYSIS'') = []"
proof -
  have n: "matchSection (str ''ANALYSIS'' @ str '':'') (str ''just some text'') = None"
    by (simp add: evalString)
  have "str ''\<newline>\<newline>note: second'' = 0x0A # 0x0A # str ''note'' @ 0x3A # str '' second'' \<and>
        str ''note'' \<noteq> [] \<and>
        (\<forall>c \<in> set (str ''note''). (0x41 \<le> c \<and> c \<le> 0x5A) \<or> (0x61 \<le> c \<and> c \<le> 0x7A))"
    by (simp add: str_def)
  then have e: "\<exists>word rest. str ''\<newline>\<newline>note: second'' = 0x0A # 0x0A # word @ 0x3A # rest \<and>
        word \<noteq> [] \<and> (\<forall>c \<in> set word. (0x41 \<le> c \<and> c \<le> 0x5A) \<or> (0x61 \<le> c \<and> c \<le> 0x7A))"
    by blast
  note t1 = extractSection_characterisation [of "str ''ANALYSIS''" "str ''ANALYSIS: first\<newline>\<newline>note: second''"]
  note t2 = extractSection_characterisation [of "str ''ANALYSIS''" "str ''just some text''"]
  have h: "headerAhead True (str ''\<newline>\<newline>note: second'')"
    unfolding t1 [THEN conjunct1, rule_format] by (rule e)
  have x: "extractSection (str ''ANALYSIS: first\<newline>\<newline>note: second'') (str ''ANALYSIS'') =
      trim (str ''first'')"
    by (rule t1 [THEN conjunct2, THEN conjunct2, THEN conjunct2, rule_format, OF note_match,
          THEN conjunct1])
  have y: "extractSection (str ''just some text'') (str ''ANALYSIS'') = []"
    by (rule t2 [THEN conjunct2, THEN conjunct2, THEN conjunct1, rule_format, OF n])
  from note_match x h n y show ?thesis by (intro conjI)
qed


text \<open>
  Against claim C4 as stated: on the reply below the ANALYSIS section ends before the
  paragraph that starts with \<open>note:\<close>, in lower case.
\<close>

theorem extractSection_lower_case_header:
  "extractSection (str ''ANALYSIS: first\<newline>\<newline>note: second'') (str ''ANALYSIS'') = str ''first''"
  by (simp add: extractSection_def evalString)

text \<open>Facts about \<open>splitBullets\<close> and \<open>trim\<close> for claim C9.\<close>

lemma extractSection_trimmed: "trim (extractSection text name) = extractSection text name"
  by (simp add: extractSection_def trim_trim split: option.splits) (simp add: trim_def)

lemma splitBullets_no_bullet:
  "\<forall>c \<in> set s. \<not> isBullet c \<Longrightarrow> splitBullets s = [s]"
proof -
  assume "\<forall>c \<in> set s. \<not> isBullet c"
  then have d: "dropWhile (\<lambda>c. \<not> isBullet c) s = []" by simp
  show ?thesis by (subst splitBullets.simps) (simp only: d list.case)
qed

lemma splitBullets_pieces:
  "piece \<in> set (splitBullets s) \<Longrightarrow> c \<in> set piece \<Longrightarrow> \<not> isBullet c"
proof (induction s arbitrary: piece rule: splitBullets.induct)
  case (1 s)
  show ?case
  proof (cases "dropWhile (\<lambda>c. \<not> isBullet c) s")
    case Nil
    have "splitBullets s = [s]" by (subst splitBullets.simps) (simp only: Nil list.case)
    moreover from Nil have "\<forall>c \<in> set s. \<not> isBullet c" by (simp add: dropWhile_eq_Nil_conv)
    ultimately show ?thesis using "1.prems" by auto
  next
    case (Cons b rest)
    have e: "splitBullets s =
        takeWhile (\<lambda>c. \<not> isBullet c) s # splitBullets (dropWhile isWhiteSpace rest)"
      by (subst splitBullets.simps) (simp only: Cons list.case)
    from "1.prems"(1) consider "piece = takeWhile (\<lambda>c. \<not> isBullet c) s"
      | "piece \<in> set (splitBullets (dropWhile isWhiteSpace rest))"
      unfolding e by auto
    then show ?thesis
    proof cases
      case 1
      then show ?thesis using "1.prems"(2) by (auto dest: set_takeWhileD)
    next
      case 2
      then show ?thesis using "1.IH" [OF Cons] "1.prems"(2) by blast
    qed
  qed
qed

lemma set_trim: "c \<in> set (trim s) \<Longrightarrow> c \<in> set s"
  unfolding trim_def by (auto dest!: set_dropWhileD)

lemma insightsFallback_trimmed: "item \<in> set insightsFallback \<Longrightarrow> item \<noteq> [] \<and> trim item = item"
proof -
  have a: "trim (str ''Document successfully processed and indexed'') = str ''Document successfully processed and indexed''"
    by (simp add: str_def trim_def isWhiteSpace_def)
  have b: "trim (str ''Content is available for search and reference'') = str ''Content is available for search and reference''"
    by (simp add: str_def trim_def isWhiteSpace_def)
  have c: "str ''Document successfully processed and indexed'' \<noteq> []" "str ''Content is available for search and reference'' \<noteq> []"
    by (simp_all add: str_def)
  assume "item \<in> set insightsFallback"
  then have "item = str ''Document successfully processed and indexed'' \<or> item = str ''Content is available for search and reference''"
    by (simp add: insightsFallback_def)
  then show ?thesis using a b c by metis
qed


lemma isMarker_isBullet: "isMarker c \<Longrightarrow> isBullet c"
  by (auto simp: isMarker_def isBullet_def)

lemma bulletFree_classes: "bulletFree s \<Longrightarrow> c \<in> set s \<Longrightarrow> isBullet c = isMarker c"
  by (auto simp: bulletFree_def list_all_iff isBullet_def isMarker_def)

lemma splitBullets_splitsInto:
  "\<forall>c \<in> set s. isBullet c = P c \<Longrightarrow> splitsInto P s (splitBullets s)"
proof (induction s rule: splitBullets.induct)
  case (1 s)
  show ?case
  proof (cases "dropWhile (\<lambda>c. \<not> isBullet c) s")
    case Nil
    have e: "splitBullets s = [s]" by (subst splitBullets.simps) (simp only: Nil list.case)
    from Nil have "\<forall>c \<in> set s. \<not> isBullet c" by (simp add: dropWhile_eq_Nil_conv)
    with "1.prems" have "\<forall>c \<in> set s. \<not> P c" by simp
    then show ?thesis unfolding e by (rule splitsInto.whole)
  next
    case (Cons b rest)
    define piece where "piece = takeWhile (\<lambda>c. \<not> isBullet c) s"
    define ws where "ws = takeWhile isWhiteSpace rest"
    define start where "start = dropWhile isWhiteSpace rest"
    have e: "splitBullets s = piece # splitBullets start"
      by (subst splitBullets.simps) (simp only: Cons list.case piece_def start_def)
    have s: "s = piece @ b # ws @ start"
      using takeWhile_dropWhile_id [of "\<lambda>c. \<not> isBullet c" s]
      unfolding Cons piece_def ws_def start_def by simp
    have "\<not> \<not> isBullet (hd (dropWhile (\<lambda>c. \<not> isBullet c) s))"
      by (rule hd_dropWhile) (simp add: Cons)
    then have "isBullet b" by (simp add: Cons)
    moreover have "b \<in> set s" by (subst s) simp
    ultimately have b: "P b" using "1.prems" by simp
    have p: "\<forall>c \<in> set piece. \<not> P c"
    proof
      fix c assume c: "c \<in> set piece"
      then have "\<not> isBullet c" unfolding piece_def by (auto dest: set_takeWhileD)
      moreover from c have "c \<in> set s" by (subst s) simp
      ultimately show "\<not> P c" using "1.prems" by simp
    qed
    have w: "\<forall>c \<in> set ws. isWhiteSpace c"
      unfolding ws_def by (auto dest: set_takeWhileD)
    have st: "start = [] \<or> \<not> isWhiteSpace (hd start)"
      unfolding start_def using hd_dropWhile [of isWhiteSpace rest] by blast
    have "\<forall>c \<in> set start. isBullet c = P c"
    proof
      fix c assume "c \<in> set start"
      then have "c \<in> set s" by (subst s) simp
      then show "isBullet c = P c" using "1.prems" by simp
    qed
    then have "splitsInto P start (splitBullets start)"
      unfolding start_def by (rule "1.IH" [OF Cons])
    with p b w st have "splitsInto P (piece @ b # ws @ start) (piece # splitBullets start)"
      by (rule splitsInto.cut)
    then show ?thesis unfolding e s [symmetric] .
  qed
qed

text \<open>A text has one split only.\<close>

lemma splitsInto_unique:
  "splitsInto P s pieces \<Longrightarrow> splitsInto P s pieces' \<Longrightarrow> pieces = pieces'"
proof (induction arbitrary: pieces' rule: splitsInto.induct)
  case (whole s P)
  from whole.prems whole.hyps show ?case
    by (cases rule: splitsInto.cases) auto
next
  case (cut piece P d ws rest pieces)
  from cut.prems show ?case
  proof (cases rule: splitsInto.cases)
    case whole
    with cut.hyps(2) show ?thesis by auto
  next
    case (cut piece' d' ws' rest' qs)
    have tw: "takeWhile (\<lambda>c. \<not> P c) (xs @ x # ys) = xs"
      if "\<forall>c \<in> set xs. \<not> P c" "P x" for xs x ys
      using that by (simp add: takeWhile_append2)
    have dw: "dropWhile (\<lambda>c. \<not> P c) (xs @ x # ys) = x # ys"
      if "\<forall>c \<in> set xs. \<not> P c" "P x" for xs x ys
      using that by (simp add: dropWhile_append2)
    from cut(1) have eq: "piece @ d # ws @ rest = piece' @ d' # ws' @ rest'" .
    have p: "piece = piece'"
      using arg_cong [OF eq, of "takeWhile (\<lambda>c. \<not> P c)"]
        tw [OF \<open>\<forall>c\<in>set piece. \<not> P c\<close> \<open>P d\<close>] tw [OF cut(3) cut(4)] by simp
    have r: "d # ws @ rest = d' # ws' @ rest'"
      using arg_cong [OF eq, of "dropWhile (\<lambda>c. \<not> P c)"]
        dw [OF \<open>\<forall>c\<in>set piece. \<not> P c\<close> \<open>P d\<close>] dw [OF cut(3) cut(4)] by simp
    then have wr: "ws @ rest = ws' @ rest'" by simp
    have sp: "dropWhile isWhiteSpace (xs @ ys) = ys"
      if "\<forall>c \<in> set xs. isWhiteSpace c" "ys = [] \<or> \<not> isWhiteSpace (hd ys)" for xs ys
      using that by (cases ys) (simp_all add: dropWhile_append2)
    have "rest = rest'"
      using arg_cong [OF wr, of "dropWhile isWhiteSpace"]
        sp [OF \<open>\<forall>c\<in>set ws. isWhiteSpace c\<close> \<open>rest = [] \<or> \<not> isWhiteSpace (hd rest)\<close>]
        sp [OF cut(5) cut(6)] by simp
    with cut(7) have "splitsInto P rest qs" by simp
    then have "pieces = qs" by (rule cut.IH)
    with p cut(2) show ?thesis by simp
  qed
qed


text \<open>
  Claim C9, amended. The two generic items are returned when the INSIGHTS section is
  missing or blank. For a body that is not blank and free of bullet characters, the result
  is made from the split of the body at its hyphens and asterisks, each with the white
  space after it: the blank pieces are dropped, the others trimmed, and the first 5 kept;
  such a body without hyphen and asterisk is returned whole, as the only item. In every
  case there are at most 5 items, each of them trimmed and not empty, and an item that
  comes from the section holds no hyphen and no asterisk.
\<close>

theorem extractInsights_cases:
  "(extractSection text (str ''INSIGHTS'') = [] \<longrightarrow> extractInsights text = insightsFallback) \<and>
   (extractSection text (str ''INSIGHTS'') \<noteq> [] \<and>
    bulletFree (extractSection text (str ''INSIGHTS'')) \<longrightarrow>
      (\<exists>pieces. splitsInto isMarker (extractSection text (str ''INSIGHTS'')) pieces \<and>
         extractInsights text =
           take 5 (map trim (filter (\<lambda>piece. trim piece \<noteq> []) pieces)))) \<and>
   (extractSection text (str ''INSIGHTS'') \<noteq> [] \<and>
    bulletFree (extractSection text (str ''INSIGHTS'')) \<and>
    (\<forall>c \<in> set (extractSection text (str ''INSIGHTS'')). \<not> isMarker c) \<longrightarrow>
      extractInsights text = [extractSection text (str ''INSIGHTS'')]) \<and>
   (extractSection text (str ''INSIGHTS'') \<noteq> [] \<longrightarrow>
      (\<forall>item \<in> set (extractInsights text). \<forall>c \<in> set item. \<not> isMarker c)) \<and>
   (\<forall>item \<in> set (extractInsights text). item \<noteq> [] \<and> trim item = item) \<and>
   length (extractInsights text) \<le> 5"
proof -
  let ?sec = "extractSection text (str ''INSIGHTS'')"
  let ?items = "map trim (filter (\<lambda>line. trim line \<noteq> []) (splitBullets ?sec))"
  have e: "extractInsights text = (if ?sec = [] then insightsFallback else take 5 ?items)"
    by (simp add: extractInsights_def Let_def)
  have c1: "?sec = [] \<longrightarrow> extractInsights text = insightsFallback"
    by (simp add: e)
  have c2: "?sec \<noteq> [] \<and> bulletFree ?sec \<longrightarrow>
      (\<exists>pieces. splitsInto isMarker ?sec pieces \<and>
         extractInsights text =
           take 5 (map trim (filter (\<lambda>piece. trim piece \<noteq> []) pieces)))"
  proof
    assume h: "?sec \<noteq> [] \<and> bulletFree ?sec"
    then have "\<forall>c \<in> set ?sec. isBullet c = isMarker c"
      by (auto dest: bulletFree_classes)
    then have s: "splitsInto isMarker ?sec (splitBullets ?sec)"
      by (rule splitBullets_splitsInto)
    have "extractInsights text = take 5 ?items" using h by (simp add: e)
    with s show "\<exists>pieces. splitsInto isMarker ?sec pieces \<and>
         extractInsights text =
           take 5 (map trim (filter (\<lambda>piece. trim piece \<noteq> []) pieces))"
      by (intro exI [of _ "splitBullets ?sec"] conjI)
  qed
  have c3: "?sec \<noteq> [] \<and> bulletFree ?sec \<and> (\<forall>c \<in> set ?sec. \<not> isMarker c) \<longrightarrow>
      extractInsights text = [?sec]"
  proof
    assume h: "?sec \<noteq> [] \<and> bulletFree ?sec \<and> (\<forall>c \<in> set ?sec. \<not> isMarker c)"
    then have "\<forall>c \<in> set ?sec. \<not> isBullet c"
      by (auto dest: bulletFree_classes)
    then have "splitBullets ?sec = [?sec]" by (rule splitBullets_no_bullet)
    then have "?items = [?sec]" using h by (simp add: extractSection_trimmed)
    then show "extractInsights text = [?sec]" using h by (simp add: e)
  qed
  have items: "item \<noteq> [] \<and> trim item = item \<and> (\<forall>c \<in> set item. \<not> isMarker c)"
    if "item \<in> set (take 5 ?items)" for item
  proof -
    from that have "item \<in> set ?items" by (rule in_set_takeD)
    then obtain line where l: "line \<in> set (splitBullets ?sec)" "trim line \<noteq> []" "item = trim line"
      by auto
    have "\<not> isMarker c" if "c \<in> set item" for c
      using that l(3) splitBullets_pieces [OF l(1)] isMarker_isBullet [of c] set_trim [of c line]
      by blast
    then show ?thesis using l by (simp add: trim_trim)
  qed
  have c4: "?sec \<noteq> [] \<longrightarrow> (\<forall>item \<in> set (extractInsights text). \<forall>c \<in> set item. \<not> isMarker c)"
  proof (intro impI ballI)
    fix item c
    assume "?sec \<noteq> []" and "item \<in> set (extractInsights text)" and c: "c \<in> set item"
    then have "item \<in> set (take 5 ?items)" by (simp add: e)
    from items [OF this] c show "\<not> isMarker c" by blast
  qed
  have c5: "\<forall>item \<in> set (extractInsights text). item \<noteq> [] \<and> trim item = item"
  proof
    fix item
    assume i: "item \<in> set (extractInsights text)"
    show "item \<noteq> [] \<and> trim item = item"
    proof (cases "?sec = []")
      case True
      with i have "item \<in> set insightsFallback" by (simp add: e)
      then show ?thesis by (rule insightsFallback_trimmed)
    next
      case False
      with i have "item \<in> set (take 5 ?items)" by (simp add: e)
      from items [OF this] show ?thesis by blast
    qed
  qed
  have c6: "length (extractInsights text) \<le> 5"
    by (simp add: e insightsFallback_def)
  from c1 c2 c3 c4 c5 c6 show ?thesis by (intro conjI)
qed

lemma soil_section:
  "extractSection (str ''INSIGHTS: Soil is loose'') (str ''INSIGHTS'') = str ''Soil is loose''"
  by (simp add: extractSection_def evalString)

lemma no_headers_section: "extractSection (str ''just some text'') (str ''INSIGHTS'') = []"
  by (simp add: extractSection_def evalString)

theorem extractInsights_no_bullets_counterexample:
  "extractSection (str ''INSIGHTS: Soil is loose'') (str ''INSIGHTS'') = str ''Soil is loose'' \<and>
   extractInsights (str ''INSIGHTS: Soil is loose'') = [str ''Soil is loose'']"
  unfolding extractInsights_def soil_section Let_def
  by (simp add: evalString splitBullets.simps)

lemma two_bullets_section:
  "extractSection (str ''INSIGHTS:\<newline>- Soil loose\<newline>* Slope steep'') (str ''INSIGHTS'') =
     str ''- Soil loose\<newline>* Slope steep''"
  by (simp add: extractSection_def evalString)

lemma two_bullets_split:
  "splitsInto isMarker (str ''- Soil loose\<newline>* Slope steep'')
     [[], str ''Soil loose\<newline>'', str ''Slope steep'']"
proof -
  have "splitsInto isMarker (str ''Slope steep'') [str ''Slope steep'']"
    by (rule splitsInto.whole) (simp add: str_def isMarker_def)
  then have "splitsInto isMarker (str ''Soil loose\<newline>'' @ 0x2A # [0x20] @ str ''Slope steep'')
      [str ''Soil loose\<newline>'', str ''Slope steep'']"
    by (rule splitsInto.cut [rotated 4]) (simp_all add: str_def isMarker_def isWhiteSpace_def)
  then have "splitsInto isMarker
      ([] @ 0x2D # [0x20] @ (str ''Soil loose\<newline>'' @ 0x2A # [0x20] @ str ''Slope steep''))
      [[], str ''Soil loose\<newline>'', str ''Slope steep'']"
    by (rule splitsInto.cut [rotated 4]) (simp_all add: str_def isMarker_def isWhiteSpace_def)
  then show ?thesis by (simp add: str_def)
qed

lemma two_bullets_items:
  "take 5 (map trim (filter (\<lambda>piece. trim piece \<noteq> [])
     [[], str ''Soil loose\<newline>'', str ''Slope steep''])) =
   [str ''Soil loose'', str ''Slope steep'']"
  by (simp add: str_def trim_def isWhiteSpace_def)

theorem extractInsights_cases_witness:
  "extractSection (str ''just some text'') (str ''INSIGHTS'') = [] \<and>
   extractInsights (str ''just some text'') = insightsFallback \<and>
   extractSection (str ''INSIGHTS:\<newline>- Soil loose\<newline>* Slope steep'') (str ''INSIGHTS'') =
     str ''- Soil loose\<newline>* Slope steep'' \<and>
   bulletFree (str ''- Soil loose\<newline>* Slope steep'') \<and>
   extractInsights (str ''INSIGHTS:\<newline>- Soil loose\<newline>* Slope steep'') =
     [str ''Soil loose'', str ''Slope steep''] \<and>
   extractSection (str ''INSIGHTS: Soil is loose'') (str ''INSIGHTS'') = str ''Soil is loose'' \<and>
   bulletFree (str ''Soil is loose'') \<and>
   extractInsights (str ''INSIGHTS: Soil is loose'') = [str ''Soil is loose'']"
proof -
  note none = extractInsights_cases [of "str ''just some text''"]
  note two = extractInsights_cases [of "str ''INSIGHTS:\<newline>- Soil loose\<newline>* Slope steep''",
      unfolded two_bullets_section]
  note one = extractInsights_cases [of "str ''INSIGHTS: Soil is loose''", unfolded soil_section]
  have a: "extractInsights (str ''just some text'') = insightsFallback"
    by (rule none [THEN conjunct1, rule_format, OF no_headers_section])
  have f2: "bulletFree (str ''- Soil loose\<newline>* Slope steep'')"
    by (simp add: bulletFree_def str_def)
  have n2: "str ''- Soil loose\<newline>* Slope steep'' \<noteq> []" by (simp add: str_def)
  from two [THEN conjunct2, THEN conjunct1, rule_format, OF conjI [OF n2 f2]]
  obtain pieces where p: "splitsInto isMarker (str ''- Soil loose\<newline>* Slope steep'') pieces"
    and r: "extractInsights (str ''INSIGHTS:\<newline>- Soil loose\<newline>* Slope steep'') =
      take 5 (map trim (filter (\<lambda>piece. trim piece \<noteq> []) pieces))"
    by blast
  from p two_bullets_split have "pieces = [[], str ''Soil loose\<newline>'', str ''Slope steep'']"
    by (rule splitsInto_unique)
  then have b: "extractInsights (str ''INSIGHTS:\<newline>- Soil loose\<newline>* Slope steep'') =
      [str ''Soil loose'', str ''Slope steep'']"
    unfolding r by (simp only: two_bullets_items)
  have f1: "bulletFree (str ''Soil is loose'')" by (simp add: bulletFree_def str_def)
  have n1: "str ''Soil is loose'' \<noteq> []" by (simp add: str_def)
  have m1: "\<forall>c \<in> set (str ''Soil is loose''). \<not> isMarker c"
    by (simp add: str_def isMarker_def)
  have c: "extractInsights (str ''INSIGHTS: Soil is loose'') = [str ''Soil is loose'']"
    by (rule one [THEN conjunct2, THEN conjunct2, THEN conjunct1, rule_format,
          OF conjI [OF n1 conjI [OF f1 m1]]])
  from no_headers_section a two_bullets_section f2 b soil_section f1 c
  show ?thesis by (intro conjI)
qed


section \<open>Properties of the analyzer\<close>

lemma includesStr_append: "includesStr (xs @ pat @ ys) pat"
proof (induction xs)
  case Nil
  have p: "prefix pat (pat @ ys)" by simp
  show ?case
  proof (cases "pat @ ys")
    case Nil
    then show ?thesis by simp
  next
    case (Cons c cs)
    with p show ?thesis by simp
  qed
next
  case (Cons x xs)
  then show ?case by simp
qed





text \<open>
  Claim C5, amended. The documents of the reference context are exactly the documents of
  the library whose content is longer than 50 characters, each as often as the library has
  it; they are ordered by the length of the content, longest first, documents of equal
  length in the order of the library. The context is the sentinel sentence when no document
  is left, and otherwise the entries of these documents in that order, one per line group,
  before the fixed guide; each entry holds the first 1500 characters of its document.
\<close>

theorem buildReferenceContext_documents:
  "mset (referenceDocs allDocuments) =
     filter_mset (\<lambda>doc. 50 < length (document.content doc)) (mset allDocuments) \<and>
   sorted_wrt (\<lambda>a b. length (document.content b) \<le> length (document.content a))
     (referenceDocs allDocuments) \<and>
   (\<forall>n. filter (\<lambda>doc. length (document.content doc) = n) (referenceDocs allDocuments) =
        filter (\<lambda>doc. 50 < n \<and> length (document.content doc) = n) allDocuments) \<and>
   buildReferenceContext allDocuments =
     (if referenceDocs allDocuments = []
      then str ''No reference documents available in the library.''
      else join (map referenceEntry (referenceDocs allDocuments)) [0x0A] @
           bmpImplementationGuide) \<and>
   (\<forall>doc. includesStr (referenceEntry doc) (take 1500 (document.content doc)))"
proof -
  let ?keep = "\<lambda>doc. document.content doc \<noteq> [] \<and> length (document.content doc) > 50"
  let ?key = "\<lambda>doc. - int (length (document.content doc))"
  have keep: "?keep = (\<lambda>doc. 50 < length (document.content doc))" by auto
  have r: "referenceDocs allDocuments =
      sort_key ?key (filter (\<lambda>doc. 50 < length (document.content doc)) allDocuments)"
    unfolding referenceDocs_def keep ..
  have m: "mset (referenceDocs allDocuments) =
     filter_mset (\<lambda>doc. 50 < length (document.content doc)) (mset allDocuments)"
    unfolding r by simp
  have "sorted (map ?key (referenceDocs allDocuments))"
    unfolding r by (rule sorted_sort_key)
  then have s: "sorted_wrt (\<lambda>a b. length (document.content b) \<le> length (document.content a))
     (referenceDocs allDocuments)"
    by (simp add: sorted_map)
  have st: "filter (\<lambda>doc. length (document.content doc) = n) (referenceDocs allDocuments) =
        filter (\<lambda>doc. 50 < n \<and> length (document.content doc) = n) allDocuments" for n
  proof -
    have k: "(\<lambda>doc. length (document.content doc) = n) = (\<lambda>doc. ?key doc = - int n)"
      by auto
    have "filter (\<lambda>doc. ?key doc = - int n) (referenceDocs allDocuments) =
          filter (\<lambda>doc. ?key doc = - int n)
            (filter (\<lambda>doc. 50 < length (document.content doc)) allDocuments)"
      unfolding r by (rule sort_key_stable)
    also have "\<dots> = filter (\<lambda>doc. 50 < n \<and> length (document.content doc) = n) allDocuments"
      by (auto intro: filter_cong)
    finally show ?thesis unfolding k .
  qed
  have b: "buildReferenceContext allDocuments =
     (if referenceDocs allDocuments = []
      then str ''No reference documents available in the library.''
      else join (map referenceEntry (referenceDocs allDocuments)) [0x0A] @
           bmpImplementationGuide)"
    by (simp add: buildReferenceContext_def)
  have e: "includesStr (referenceEntry doc) (take 1500 (document.content doc))" for doc
  proof -
    let ?docName = "if originalName doc \<noteq> [] then originalName doc
                    else str ''Untitled Document''"
    let ?pre = "str ''[REFERENCE: '' @ [0x22] @ ?docName @ [0x22] @ str ''] ('' @
         document.category doc @ str '')'' @ [0x0A] @
         str ''FILE SIZE: '' @ toFixed1Div1024 (length (document.content doc)) @ str ''KB'' @
         [0x0A] @ str ''CONTENT EXTRACT: ''"
    let ?post = "(if length (document.content doc) > 1500
                  then str ''...[FULL DOCUMENT AVAILABLE]'' else []) @ [0x0A] @ str ''---''"
    have q: \<open>str ''[REFERENCE: "'' = str ''[REFERENCE: '' @ [0x22]\<close>
      \<open>str ''"] ('' = [0x22] @ str ''] (''\<close>
      by (simp_all add: str_def)
    have "referenceEntry doc = ?pre @ take 1500 (document.content doc) @ ?post"
      unfolding referenceEntry_def Let_def q by simp
    then show ?thesis
      using includesStr_append [of ?pre "take 1500 (document.content doc)" ?post] by simp
  qed
  from m s st b e show ?thesis by (intro conjI allI)
qed

text \<open>
  Against claim C5 as stated: a document of exactly 50 characters is not below 50, and it
  is left out; the entry of the first document starts with its name, not with a tag.
\<close>

theorem buildReferenceContext_threshold_counterexample:
  \<open>length (document.content shortDocument) = 50 \<and>
   referenceDocs [shortDocument, longDocument] = [longDocument] \<and>
   take 25 (buildReferenceContext [shortDocument, longDocument]) =
     str ''[REFERENCE: "manual.pdf"]'' \<and>
   buildReferenceContext [shortDocument] =
     str ''No reference documents available in the library.''\<close>
proof -
  have r: "referenceDocs [shortDocument, longDocument] = [longDocument]"
    by (simp add: referenceDocs_def shortDocument_def longDocument_def)
  have r': "referenceDocs [shortDocument] = []"
    by (simp add: referenceDocs_def shortDocument_def)
  have l: "length (document.content shortDocument) = 50" by (simp add: shortDocument_def)
  have t: \<open>take 25 (buildReferenceContext [shortDocument, longDocument]) =
      str ''[REFERENCE: "manual.pdf"]''\<close>
    unfolding buildReferenceContext_def r
    by (simp add: referenceEntry_def longDocument_def str_def)
  have n: "buildReferenceContext [shortDocument] =
      str ''No reference documents available in the library.''"
    unfolding buildReferenceContext_def r' by simp
  from l r t n show ?thesis by (intro conjI)
qed

section \<open>Properties of the subprocess runner\<close>

text \<open>\<open>cleanup\<close> only removes files, and removes each listed file whose unlink does not throw.\<close>

lemma cleanup_subset: "path \<notin> fs \<Longrightarrow> path \<notin> cleanup env files fs"
  unfolding cleanup_def by (induction files arbitrary: fs) auto

lemma cleanup_removes:
  "path \<in> set files \<Longrightarrow> \<not> unlinkThrows env path \<Longrightarrow> path \<notin> cleanup env files fs"
proof (induction files arbitrary: fs)
  case Nil
  then show ?case by simp
next
  case (Cons f files)
  let ?fs = "if f \<in> fs \<and> \<not> unlinkThrows env f then fs - {f} else fs"
  have step: "cleanup env (f # files) fs = cleanup env files ?fs"
    by (simp add: cleanup_def)
  show ?case
  proof (cases "path = f")
    case True
    with Cons.prems(2) have "path \<notin> ?fs" by auto
    then show ?thesis unfolding step by (rule cleanup_subset)
  next
    case False
    with Cons.prems have "path \<in> set files" by simp
    then show ?thesis unfolding step using Cons.prems(2) by (rule Cons.IH)
  qed
qed

lemma cleanup_twice_removes:
  "path \<in> set files \<Longrightarrow> \<not> unlinkThrows env path \<Longrightarrow>
   path \<notin> cleanup env files (cleanup env files fs)"
  by (rule cleanup_subset) (rule cleanup_removes)

lemma example_paths:
  "scriptPath stuckScriptEnv = str ''/app/uploads/python_temp/script_s1.py''"
  "dataPath stuckScriptEnv = str ''/app/uploads/python_temp/data_s1.json''"
  "outputPath stuckScriptEnv = str ''/app/uploads/python_temp/output_s1.json''"
  "scriptPath timeoutEnv = str ''/app/uploads/python_temp/script_s1.py''"
  "dataPath timeoutEnv = str ''/app/uploads/python_temp/data_s1.json''"
  "outputPath timeoutEnv = str ''/app/uploads/python_temp/output_s1.json''"
  "scriptPath survivingEnv = str ''/app/uploads/python_temp/script_s1.py''"
  "dataPath survivingEnv = str ''/app/uploads/python_temp/data_s1.json''"
  "outputPath survivingEnv = str ''/app/uploads/python_temp/output_s1.json''"
  "scriptPath nullOutputEnv = str ''/app/uploads/python_temp/script_s1.py''"
  "dataPath nullOutputEnv = str ''/app/uploads/python_temp/data_s1.json''"
  "outputPath nullOutputEnv = str ''/app/uploads/python_temp/output_s1.json''"
  by (simp_all add: scriptPath_def dataPath_def outputPath_def stuckScriptEnv_def timeoutEnv_def
      survivingEnv_def nullOutputEnv_def str_def)

lemma example_paths_distinct:
  "str ''/app/uploads/python_temp/script_s1.py'' \<noteq> str ''/app/uploads/python_temp/data_s1.json''"
  "str ''/app/uploads/python_temp/script_s1.py'' \<noteq> str ''/app/uploads/python_temp/output_s1.json''"
  "str ''/app/uploads/python_temp/data_s1.json'' \<noteq> str ''/app/uploads/python_temp/output_s1.json''"
  by (simp_all add: str_def)

text \<open>
  Claim C6, amended. When the script and the data file were written and the process does
  not exit within the 30 seconds, the timer calls \<open>kill()\<close> on it and the result has
  \<open>success = false\<close>. The error is the timeout message when reading the output file does
  not throw and its content does not parse to \<open>null\<close>. Each of the three temporary files
  on which \<open>unlinkSync\<close> does not throw, and which the process does not create again
  after the cleanup, is gone afterwards.
\<close>

theorem executeStormwaterAnalysis_timeout:
  assumes "processEvent env = Timeout"
    and "writeThrows env (scriptPath env) = None"
    and "data \<noteq> None \<longrightarrow> writeThrows env (dataPath env) = None"
  shows "\<not> success (fst (executeStormwaterAnalysis env code data fs0)) \<and>
         snd (snd (executeStormwaterAnalysis env code data fs0)) \<and>
         (readThrows env (outputPath env) = None \<and> outputParse env \<noteq> Parsed JNull \<longrightarrow>
            error (fst (executeStormwaterAnalysis env code data fs0)) =
              Some (str ''Python execution timed out after 30 seconds'')) \<and>
         (\<forall>path \<in> {scriptPath env, dataPath env, outputPath env}.
            \<not> unlinkThrows env path \<and>
            (\<forall>fs. path \<notin> fs \<longrightarrow> path \<notin> processFilesLater env fs) \<longrightarrow>
            path \<notin> fst (snd (executeStormwaterAnalysis env code data fs0)))"
proof -
  let ?files = "[scriptPath env, dataPath env, outputPath env]"
  define fs1 where "fs1 = (if data \<noteq> None then insert (dataPath env) fs0 else fs0)"
  define fs3 where "fs3 = processFiles env (insert (scriptPath env) fs1)"
  define parsed where "parsed =
    (if outputPath env \<in> fs3
     then (case readThrows env (outputPath env) of
             Some message \<Rightarrow> Inl message
           | None \<Rightarrow> Inr (case outputParse env of
                            SyntaxError \<Rightarrow> JValue None None
                          | Parsed analysisResults \<Rightarrow> analysisResults))
     else Inr (JValue None None))"
  have run: "executeStormwaterAnalysis env code data fs0 =
    (case parsed of
       Inl message \<Rightarrow>
         (interpreterError message, processFilesLater env (cleanup env ?files fs3), True)
     | Inr JNull \<Rightarrow>
         (interpreterError nullPlotsMessage,
          processFilesLater env (cleanup env ?files (cleanup env ?files fs3)), True)
     | Inr (JValue plots' analysis') \<Rightarrow>
         (\<lparr>success = False, output = None,
           error = Some (str ''Python execution timed out after 30 seconds''),
           plots = Some (case plots' of Some ps \<Rightarrow> ps | None \<Rightarrow> []),
           dataAnalysis = (case analysis' of
                             Some a \<Rightarrow> a
                           | None \<Rightarrow> \<lparr>summary = str ''Execution failed'',
                                       insights = [], recommendations = []\<rparr>)\<rparr>,
          processFilesLater env (cleanup env ?files fs3), True))"
    using assms
    by (auto simp: executeStormwaterAnalysis_def writeFileSync_def afterReturn_def Let_def
        fs1_def fs3_def parsed_def
        split: sum.splits json.splits option.splits parse_result.splits)
  have a: "\<not> success (fst (executeStormwaterAnalysis env code data fs0))"
    unfolding run by (simp add: interpreterError_def split: sum.splits json.splits)
  have b: "snd (snd (executeStormwaterAnalysis env code data fs0))"
    unfolding run by (simp split: sum.splits json.splits)
  have c: "readThrows env (outputPath env) = None \<and> outputParse env \<noteq> Parsed JNull \<longrightarrow>
            error (fst (executeStormwaterAnalysis env code data fs0)) =
              Some (str ''Python execution timed out after 30 seconds'')"
  proof
    assume h: "readThrows env (outputPath env) = None \<and> outputParse env \<noteq> Parsed JNull"
    then obtain p a where "parsed = Inr (JValue p a)"
      unfolding parsed_def by (cases "outputParse env"; cases "outputPath env \<in> fs3")
        (auto split: json.splits intro: json.exhaust)
    then show "error (fst (executeStormwaterAnalysis env code data fs0)) =
              Some (str ''Python execution timed out after 30 seconds'')"
      unfolding run by simp
  qed
  have d: "\<forall>path \<in> {scriptPath env, dataPath env, outputPath env}.
            \<not> unlinkThrows env path \<and>
            (\<forall>fs. path \<notin> fs \<longrightarrow> path \<notin> processFilesLater env fs) \<longrightarrow>
            path \<notin> fst (snd (executeStormwaterAnalysis env code data fs0))"
  proof (intro ballI impI)
    fix path
    assume "path \<in> {scriptPath env, dataPath env, outputPath env}"
      and h: "\<not> unlinkThrows env path \<and>
              (\<forall>fs. path \<notin> fs \<longrightarrow> path \<notin> processFilesLater env fs)"
    then have m: "path \<in> set ?files" by auto
    from h have u: "\<not> unlinkThrows env path" ..
    from h have later: "path \<notin> fs \<Longrightarrow> path \<notin> processFilesLater env fs" for fs by blast
    have l1: "path \<notin> processFilesLater env (cleanup env ?files fs3)"
      by (rule later) (rule cleanup_removes [OF m u])
    have l2: "path \<notin> processFilesLater env (cleanup env ?files (cleanup env ?files fs3))"
      by (rule later) (rule cleanup_twice_removes [OF m u])
    show "path \<notin> fst (snd (executeStormwaterAnalysis env code data fs0))"
      unfolding run using l1 l2 by (simp split: sum.splits json.splits)
  qed
  from a b c d show ?thesis by (intro conjI)
qed

text \<open>
  Against claim C6 as stated, two runs in which the process times out. In the first
  \<open>unlinkSync\<close> throws on the script file, \<open>cleanup\<close> catches the error, and the script
  file is still there afterwards. In the second the process outlives the SIGTERM, and the
  output file that it writes after the cleanup is there afterwards.
\<close>

theorem executeStormwaterAnalysis_timeout_counterexample:
  "processEvent stuckScriptEnv = Timeout \<and>
   executeStormwaterAnalysis stuckScriptEnv (str ''import time; time.sleep(60)'') None {} =
     (\<lparr>success = False, output = None,
       error = Some (str ''Python execution timed out after 30 seconds''),
       plots = Some [],
       dataAnalysis =
         \<lparr>summary = str ''Execution failed'', insights = [], recommendations = []\<rparr>\<rparr>,
      {str ''/app/uploads/python_temp/script_s1.py''}, True) \<and>
   processEvent survivingEnv = Timeout \<and>
   executeStormwaterAnalysis survivingEnv (str ''import time; time.sleep(60)'') None {} =
     (\<lparr>success = False, output = None,
       error = Some (str ''Python execution timed out after 30 seconds''),
       plots = Some [],
       dataAnalysis =
         \<lparr>summary = str ''Execution failed'', insights = [], recommendations = []\<rparr>\<rparr>,
      {str ''/app/uploads/python_temp/output_s1.json''}, True)"
proof -
  have e: "processEvent stuckScriptEnv = Timeout" by (simp add: stuckScriptEnv_def)
  have w: "writeFileSync stuckScriptEnv p fs = Inr (insert p fs)" for p fs
    by (simp add: writeFileSync_def stuckScriptEnv_def)
  have u: "unlinkThrows stuckScriptEnv p = (p = str ''/app/uploads/python_temp/script_s1.py'')"
    for p by (simp add: stuckScriptEnv_def)
  have pf: "processFiles stuckScriptEnv fs = fs" for fs by (simp add: stuckScriptEnv_def)
  have ar: "afterReturn stuckScriptEnv k fs = fs" for k fs
    by (simp add: afterReturn_def stuckScriptEnv_def)
  have first: "executeStormwaterAnalysis stuckScriptEnv (str ''import time; time.sleep(60)'')
      None {} =
     (\<lparr>success = False, output = None,
       error = Some (str ''Python execution timed out after 30 seconds''),
       plots = Some [],
       dataAnalysis =
         \<lparr>summary = str ''Execution failed'', insights = [], recommendations = []\<rparr>\<rparr>,
      {str ''/app/uploads/python_temp/script_s1.py''}, True)"
    unfolding executeStormwaterAnalysis_def Let_def e w pf ar example_paths
    using example_paths_distinct by (simp add: cleanup_def u)
  have e': "processEvent survivingEnv = Timeout" by (simp add: survivingEnv_def)
  have w': "writeFileSync survivingEnv p fs = Inr (insert p fs)" for p fs
    by (simp add: writeFileSync_def survivingEnv_def)
  have u': "\<not> unlinkThrows survivingEnv p" for p by (simp add: survivingEnv_def)
  have pf': "processFiles survivingEnv fs = fs" for fs by (simp add: survivingEnv_def)
  have ar': "afterReturn survivingEnv True fs =
      insert (str ''/app/uploads/python_temp/output_s1.json'') fs" for fs
    by (simp add: afterReturn_def survivingEnv_def)
  have second: "executeStormwaterAnalysis survivingEnv (str ''import time; time.sleep(60)'')
      None {} =
     (\<lparr>success = False, output = None,
       error = Some (str ''Python execution timed out after 30 seconds''),
       plots = Some [],
       dataAnalysis =
         \<lparr>summary = str ''Execution failed'', insights = [], recommendations = []\<rparr>\<rparr>,
      {str ''/app/uploads/python_temp/output_s1.json''}, True)"
    unfolding executeStormwaterAnalysis_def Let_def e' w' pf' example_paths
    using example_paths_distinct by (simp add: cleanup_def u' ar')
  from e first e' second show ?thesis by (intro conjI)
qed

theorem executeStormwaterAnalysis_timeout_witness:
  "processEvent timeoutEnv = Timeout \<and>
   executeStormwaterAnalysis timeoutEnv (str ''import time; time.sleep(60)'') None {} =
     (\<lparr>success = False, output = None,
       error = Some (str ''Python execution timed out after 30 seconds''),
       plots = Some [],
       dataAnalysis =
         \<lparr>summary = str ''Execution failed'', insights = [], recommendations = []\<rparr>\<rparr>,
      {}, True)"
proof -
  have e: "processEvent timeoutEnv = Timeout" by (simp add: timeoutEnv_def)
  have w: "writeThrows timeoutEnv (scriptPath timeoutEnv) = None" by (simp add: timeoutEnv_def)
  have w': "(None :: jsstring option) \<noteq> None \<longrightarrow>
      writeThrows timeoutEnv (dataPath timeoutEnv) = None"
    by simp
  have u: "\<not> unlinkThrows timeoutEnv p" for p by (simp add: timeoutEnv_def)
  have later: "\<forall>fs. p \<notin> fs \<longrightarrow> p \<notin> processFilesLater timeoutEnv fs" for p
    by (simp add: timeoutEnv_def)
  note t = executeStormwaterAnalysis_timeout
    [OF e w w', of "str ''import time; time.sleep(60)''" "{}"]
  from t u later
  have gone: "scriptPath timeoutEnv \<notin>
      fst (snd (executeStormwaterAnalysis timeoutEnv (str ''import time; time.sleep(60)'') None {}))"
    by blast
  have wf: "writeFileSync timeoutEnv p fs = Inr (insert p fs)" for p fs
    by (simp add: writeFileSync_def timeoutEnv_def)
  have pf: "processFiles timeoutEnv fs = fs" for fs by (simp add: timeoutEnv_def)
  have ar: "afterReturn timeoutEnv k fs = fs" for k fs
    by (simp add: afterReturn_def timeoutEnv_def)
  have "executeStormwaterAnalysis timeoutEnv (str ''import time; time.sleep(60)'') None {} =
     (\<lparr>success = False, output = None,
       error = Some (str ''Python execution timed out after 30 seconds''),
       plots = Some [],
       dataAnalysis =
         \<lparr>summary = str ''Execution failed'', insights = [], recommendations = []\<rparr>\<rparr>,
      {}, True)"
    unfolding executeStormwaterAnalysis_def Let_def e wf pf ar example_paths
    using example_paths_distinct by (simp add: cleanup_def u)
  with e gone show ?thesis by simp
qed

text \<open>
  Claim C7 says that the exit code alone decides \<open>success\<close>, whatever the output file
  holds. In the run below the process exits with code 0 and leaves an output file whose
  content is the JSON text \<open>null\<close>: the parse succeeds, reading \<open>analysisResults.plots\<close>
  throws, and the \<open>catch\<close> block returns \<open>success = false\<close> with its own error message.
\<close>

theorem executeStormwaterAnalysis_null_output:
  "processEvent nullOutputEnv = Close (Some 0) (str ''done'') [] \<and>
   executeStormwaterAnalysis nullOutputEnv (str ''raise SystemExit(0)'') None {} =
     (interpreterError nullPlotsMessage, {}, False) \<and>
   \<not> success (interpreterError nullPlotsMessage)"
proof -
  have e: "processEvent nullOutputEnv = Close (Some 0) (str ''done'') []"
    by (simp add: nullOutputEnv_def)
  have w: "writeFileSync nullOutputEnv p fs = Inr (insert p fs)" for p fs
    by (simp add: writeFileSync_def nullOutputEnv_def)
  have u: "\<not> unlinkThrows nullOutputEnv p" for p by (simp add: nullOutputEnv_def)
  have pf: "processFiles nullOutputEnv fs =
      insert (str ''/app/uploads/python_temp/output_s1.json'') fs" for fs
    by (simp add: nullOutputEnv_def)
  have ar: "afterReturn nullOutputEnv k fs = fs" for k fs
    by (simp add: afterReturn_def nullOutputEnv_def)
  have r: "readThrows nullOutputEnv p = None" for p by (simp add: nullOutputEnv_def)
  have o: "outputParse nullOutputEnv = Parsed JNull" by (simp add: nullOutputEnv_def)
  have "executeStormwaterAnalysis nullOutputEnv (str ''raise SystemExit(0)'') None {} =
     (interpreterError nullPlotsMessage, {}, False)"
    unfolding executeStormwaterAnalysis_def Let_def e w pf ar example_paths r o
    using example_paths_distinct by (auto simp: cleanup_def u)
  then show ?thesis using e by (simp add: interpreterError_def)
qed

text \<open>
  In every other run, when the two files are written and reading the output file does not
  throw: the exit code alone decides \<open>success\<close>, and \<open>output\<close> and \<open>error\<close> are the trimmed
  streams, whether the output file exists, parses or not.
\<close>

lemma executeStormwaterAnalysis_exit_code:
  assumes "processEvent env = Close code out err"
    and "writeThrows env (scriptPath env) = None"
    and "data \<noteq> None \<longrightarrow> writeThrows env (dataPath env) = None"
    and "readThrows env (outputPath env) = None"
    and "outputParse env \<noteq> Parsed JNull"
  shows "success (fst (executeStormwaterAnalysis env source data fs0)) = (code = Some 0) \<and>
         output (fst (executeStormwaterAnalysis env source data fs0)) = Some (trim out) \<and>
         error (fst (executeStormwaterAnalysis env source data fs0)) =
           (if trim err \<noteq> [] then Some (trim err) else None)"
  using assms
  by (auto simp: executeStormwaterAnalysis_def writeFileSync_def Let_def
      split: sum.splits json.splits option.splits parse_result.splits)

section \<open>Properties of the plugin manager\<close>

lemma foldl_plus: "foldl (\<lambda>total x. total + f x) a xs = a + sum_list (map f xs)" for a :: nat
  by (induction xs arbitrary: a) simp_all

lemma getTotalMemoryUsage_sum:
  "getTotalMemoryUsage ps = (\<Sum>(k, plugin) \<leftarrow> ps. reportedMemory plugin)"
  by (simp add: getTotalMemoryUsage_def foldl_plus comp_def case_prod_unfold)

lemma getTotalCpuUsage_sum:
  "getTotalCpuUsage ps = (\<Sum>(k, plugin) \<leftarrow> ps. reportedCpu plugin)"
  by (simp add: getTotalCpuUsage_def foldl_plus comp_def case_prod_unfold)

lemma sum_update_le:
  "(\<Sum>(k, plugin) \<leftarrow> AList.update key v ps. f plugin) \<le> (\<Sum>(k, plugin) \<leftarrow> ps. f plugin) + f v"
  for f :: "AIPlugin \<Rightarrow> nat"
  by (induction ps) auto

lemma sum_delete_le:
  "(\<Sum>(k, plugin) \<leftarrow> AList.delete key ps. f plugin) \<le> (\<Sum>(k, plugin) \<leftarrow> ps. f plugin)"
  for f :: "AIPlugin \<Rightarrow> nat"
  by (induction ps) auto

lemma set_update_subset: "set (AList.update key v ps) \<subseteq> insert (key, v) (set ps)"
  by (induction ps) auto

lemma set_delete_subset: "set (AList.delete key ps) \<subseteq> set ps"
  by (induction ps) auto

lemma capsHold_runCall:
  assumes "capsHold ps" and "callReportsDeclared c"
  shows "capsHold (runCall ps c)"
proof (cases c)
  case (Register plugin)
  show ?thesis
  proof (cases "canLoadPlugin ps plugin \<and> \<not> initializeThrows plugin")
    case False
    then show ?thesis using assms(1) by (auto simp: Register registerPlugin_def)
  next
    case True
    let ?p = "plugin\<lparr>isActive := True\<rparr>"
    let ?ps = "AList.update (id plugin) ?p ps"
    have r: "runCall ps c = ?ps" using True by (simp add: Register registerPlugin_def)
    have d: "reportsDeclared ?p" using assms(2) by (simp add: Register reportsDeclared_def)
    have "getTotalMemoryUsage ?ps \<le> getTotalMemoryUsage ps + reportedMemory ?p"
      unfolding getTotalMemoryUsage_sum by (rule sum_update_le)
    also have "\<dots> \<le> maxMemoryUsage"
      using True d by (simp add: canLoadPlugin_def reportsDeclared_def)
    finally have m: "getTotalMemoryUsage ?ps \<le> maxMemoryUsage" .
    have "getTotalCpuUsage ?ps \<le> getTotalCpuUsage ps + reportedCpu ?p"
      unfolding getTotalCpuUsage_sum by (rule sum_update_le)
    also have "\<dots> \<le> maxCpuUsage"
      using True d by (simp add: canLoadPlugin_def reportsDeclared_def)
    finally have cp: "getTotalCpuUsage ?ps \<le> maxCpuUsage" .
    have "\<forall>(k, q) \<in> set ?ps. reportsDeclared q"
      using set_update_subset [of "id plugin" ?p ps] assms(1) d by (auto simp: capsHold_def)
    with m cp show ?thesis unfolding r capsHold_def by simp
  qed
next
  case (Unregister pluginId)
  show ?thesis
  proof (cases "runCall ps c = ps")
    case True
    then show ?thesis using assms(1) by simp
  next
    case False
    then have r: "runCall ps c = AList.delete pluginId ps"
      by (auto simp: Unregister unregisterPlugin_def split: option.splits if_splits)
    have "getTotalMemoryUsage (AList.delete pluginId ps) \<le> getTotalMemoryUsage ps"
      unfolding getTotalMemoryUsage_sum by (rule sum_delete_le)
    moreover have "getTotalCpuUsage (AList.delete pluginId ps) \<le> getTotalCpuUsage ps"
      unfolding getTotalCpuUsage_sum by (rule sum_delete_le)
    moreover have "\<forall>(k, q) \<in> set (AList.delete pluginId ps). reportsDeclared q"
      using set_delete_subset [of pluginId ps] assms(1) by (auto simp: capsHold_def)
    ultimately show ?thesis using assms(1) unfolding r capsHold_def by simp
  qed
qed

lemma capsHold_foldl:
  "capsHold ps \<Longrightarrow> list_all callReportsDeclared calls \<Longrightarrow> capsHold (foldl runCall ps calls)"
  by (induction calls arbitrary: ps) (simp_all add: capsHold_runCall)

lemma declared_sums:
  assumes "capsHold ps"
  shows "(\<Sum>(k, plugin) \<leftarrow> ps. memoryUsage plugin) = getTotalMemoryUsage ps"
    and "(\<Sum>(k, plugin) \<leftarrow> ps. cpuUsage plugin) = getTotalCpuUsage ps"
proof -
  have d: "\<forall>(k, plugin) \<in> set ps. reportsDeclared plugin" using assms by (simp add: capsHold_def)
  show "(\<Sum>(k, plugin) \<leftarrow> ps. memoryUsage plugin) = getTotalMemoryUsage ps"
    unfolding getTotalMemoryUsage_sum using d
    by (intro arg_cong [where f = sum_list] map_cong) (auto simp: reportsDeclared_def)
  show "(\<Sum>(k, plugin) \<leftarrow> ps. cpuUsage plugin) = getTotalCpuUsage ps"
    unfolding getTotalCpuUsage_sum using d
    by (intro arg_cong [where f = sum_list] map_cong) (auto simp: reportsDeclared_def)
qed


text \<open>
  Claim C10. When every plugin passed to \<open>registerPlugin\<close> reports its declared constants,
  after any sequence of \<open>registerPlugin\<close> and \<open>unregisterPlugin\<close> calls on a new manager the
  declared memory of the registered plugins adds up to at most 4096 and their declared CPU
  usage to at most 80. When the totals with a plugin would exceed a cap, \<open>registerPlugin\<close>
  returns false without calling \<open>initialize()\<close>, and the map is unchanged.
\<close>

theorem plugin_caps_invariant:
  "(list_all callReportsDeclared calls \<longrightarrow>
      (\<Sum>(k, plugin) \<leftarrow> runCalls calls. memoryUsage plugin) \<le> 4096 \<and>
      (\<Sum>(k, plugin) \<leftarrow> runCalls calls. cpuUsage plugin) \<le> 80) \<and>
   (getTotalMemoryUsage ps + memoryUsage plugin > 4096 \<or> getTotalCpuUsage ps + cpuUsage plugin > 80 \<longrightarrow>
      registerPlugin ps plugin = (False, False, ps))"
proof -
  have a: "(\<Sum>(k, plugin) \<leftarrow> runCalls calls. memoryUsage plugin) \<le> 4096 \<and>
      (\<Sum>(k, plugin) \<leftarrow> runCalls calls. cpuUsage plugin) \<le> 80"
    if "list_all callReportsDeclared calls"
  proof -
    have "capsHold []"
      by (simp add: capsHold_def getTotalMemoryUsage_def getTotalCpuUsage_def)
    then have c: "capsHold (runCalls calls)"
      unfolding runCalls_def using that by (rule capsHold_foldl)
    then show ?thesis
      using declared_sums [OF c] by (simp add: capsHold_def maxMemoryUsage_def maxCpuUsage_def)
  qed
  have b: "registerPlugin ps plugin = (False, False, ps)"
    if "getTotalMemoryUsage ps + memoryUsage plugin > 4096 \<or> getTotalCpuUsage ps + cpuUsage plugin > 80"
    using that by (auto simp: registerPlugin_def canLoadPlugin_def maxMemoryUsage_def maxCpuUsage_def)
  from a b show ?thesis by blast
qed


theorem plugin_caps_invariant_witness:
  "list_all callReportsDeclared [Register hugePlugin, Register chatPlugin, Unregister (str ''huge''), Register chatPlugin] \<and>
   runCalls [Register hugePlugin, Register chatPlugin, Unregister (str ''huge''), Register chatPlugin] =
     [(str ''chat-service'', chatPlugin\<lparr>isActive := True\<rparr>)] \<and>
   getTotalMemoryUsage [(str ''huge'', hugePlugin)] + memoryUsage chatPlugin > 4096 \<and>
   registerPlugin [(str ''huge'', hugePlugin)] chatPlugin = (False, False, [(str ''huge'', hugePlugin)])"
proof -
  have l: "list_all callReportsDeclared [Register hugePlugin, Register chatPlugin, Unregister (str ''huge''), Register chatPlugin]"
    by (simp add: reportsDeclared_def hugePlugin_def chatPlugin_def)
  have g: "getTotalMemoryUsage [(str ''huge'', hugePlugin)] + memoryUsage chatPlugin > 4096"
    by (simp add: getTotalMemoryUsage_def hugePlugin_def chatPlugin_def)
  have ne: "str ''chat-service'' \<noteq> str ''huge''" by (simp add: str_def)
  have r: "runCalls [Register hugePlugin, Register chatPlugin, Unregister (str ''huge''), Register chatPlugin] =
     [(str ''chat-service'', chatPlugin\<lparr>isActive := True\<rparr>)]"
    using ne
    by (simp add: runCalls_def registerPlugin_def unregisterPlugin_def canLoadPlugin_def
        getTotalMemoryUsage_def getTotalCpuUsage_def maxMemoryUsage_def maxCpuUsage_def
        hugePlugin_def chatPlugin_def AList.delete_eq)
  from plugin_caps_invariant [of "[Register hugePlugin, Register chatPlugin, Unregister (str ''huge''), Register chatPlugin]"
      "[(str ''huge'', hugePlugin)]" chatPlugin] l g r
  show ?thesis by simp
qed


end
